theory Spec2Isabelle
  imports Main "HOL-Library.Multiset" "HOL-Library.Char_ord" "HOL-Library.List_Lexorder"
begin

section \<open>Instants\<close>

text \<open>
  A \<^verbatim>\<open>time.Time\<close> without a monotonic reading is a count of seconds since
  January 1 of year 1, 00:00:00 UTC, a nanosecond offset within that second, and
  a location used for display only. The zero value \<^verbatim>\<open>time.Time{}\<close> has both
  counts zero. \<^verbatim>\<open>IsZero\<close>, \<^verbatim>\<open>Before\<close>, \<^verbatim>\<open>After\<close> and \<^verbatim>\<open>Equal\<close> read the two counts
  and ignore the location, as the standard library's methods do.
\<close>

datatype location = UTC | Local | Zone string

record time =
  t_sec :: int
  t_nsec :: int
  t_loc :: location

definition zeroTime :: time where
  "zeroTime = \<lparr>t_sec = 0, t_nsec = 0, t_loc = UTC\<rparr>"

definition IsZero :: "time \<Rightarrow> bool" where
  "IsZero t = (t_sec t = 0 \<and> t_nsec t = 0)"

definition Before :: "time \<Rightarrow> time \<Rightarrow> bool" where
  "Before t u = (t_sec t < t_sec u \<or> t_sec t = t_sec u \<and> t_nsec t < t_nsec u)"

definition After :: "time \<Rightarrow> time \<Rightarrow> bool" where
  "After t u = (t_sec t > t_sec u \<or> t_sec t = t_sec u \<and> t_nsec t > t_nsec u)"

definition Equal :: "time \<Rightarrow> time \<Rightarrow> bool" where
  "Equal t u = (t_sec t = t_sec u \<and> t_nsec t = t_nsec u)"

subsection \<open>Calendar dates in UTC\<close>

text \<open>
  \<^verbatim>\<open>time.Date(year, month, day, hour, min, sec, nsec, time.UTC)\<close> for fields that
  are already in range (the parser below checks month and day before it builds
  the instant, so the normalisation of \<^verbatim>\<open>time.Date\<close> never applies).
\<close>

definition isLeap :: "int \<Rightarrow> bool" where
  "isLeap year = (year mod 4 = 0 \<and> (year mod 100 \<noteq> 0 \<or> year mod 400 = 0))"

definition daysBefore :: "int list" where
  "daysBefore = [0, 31, 59, 90, 120, 151, 181, 212, 243, 273, 304, 334, 365]"

definition daysIn :: "int \<Rightarrow> int \<Rightarrow> int" where
  "daysIn m year =
     (if m = 2 \<and> isLeap year then 29
      else daysBefore ! nat m - daysBefore ! nat (m - 1))"

definition daysSinceYear1 :: "int \<Rightarrow> int" where
  "daysSinceYear1 year =
     (let y = year - 1 in 365 * y + y div 4 - y div 100 + y div 400)"

definition DateUTC :: "int \<Rightarrow> int \<Rightarrow> int \<Rightarrow> int \<Rightarrow> int \<Rightarrow> int \<Rightarrow> int \<Rightarrow> time" where
  "DateUTC year month day hour minute second ns =
     (let d = daysSinceYear1 year + daysBefore ! nat (month - 1)
              + (if isLeap year \<and> month \<ge> 3 then 1 else 0) + (day - 1)
      in \<lparr>t_sec = d * 86400 + hour * 3600 + minute * 60 + second,
          t_nsec = ns, t_loc = UTC\<rparr>)"

subsection \<open>Parsing a bare date\<close>

text \<open>
  \<^verbatim>\<open>time.Parse("20060102", value)\<close>: the layout is a four-digit year, a
  two-digit month and a two-digit day. The year needs four digits
  (\<^verbatim>\<open>atoi\<close> of the first four bytes), month and day are read by
  \<^verbatim>\<open>getnum\<close> with \<^verbatim>\<open>fixed = true\<close>, the month must lie in 1..12, no text may
  follow, and the day must lie in 1..\<^verbatim>\<open>daysIn\<close>. The result is in UTC. Every
  error is \<open>None\<close>.
\<close>

definition isDigit :: "char \<Rightarrow> bool" where
  "isDigit c = (48 \<le> (of_char c :: nat) \<and> (of_char c :: nat) \<le> 57)"

definition digitVal :: "char \<Rightarrow> int" where
  "digitVal c = int (of_char c) - 48"

fun getnum :: "string \<Rightarrow> (int \<times> string) option" where
  "getnum (a # b # rest) =
     (if isDigit a \<and> isDigit b then Some (digitVal a * 10 + digitVal b, rest) else None)"
| "getnum s = None"

fun parseDate :: "string \<Rightarrow> time option" where
  "parseDate (a # b # c # d # v1) =
     (if \<not> (isDigit a \<and> isDigit b \<and> isDigit c \<and> isDigit d) then None
      else
        let year = digitVal a * 1000 + digitVal b * 100 + digitVal c * 10 + digitVal d in
        case getnum v1 of
          None \<Rightarrow> None
        | Some (month, v2) \<Rightarrow>
            if month \<le> 0 \<or> 12 < month then None
            else
              (case getnum v2 of
                 None \<Rightarrow> None
               | Some (day, v3) \<Rightarrow>
                   if v3 \<noteq> [] then None
                   else if day < 1 \<or> day > daysIn month year then None
                   else Some (DateUTC year month day 0 0 0 0)))"
| "parseDate s = None"

section \<open>The iCalendar library and the host\<close>

text \<open>
  go-ical's data: a property has a name, parameters (a map from parameter name
  to its values) and a raw value; a component has a name, properties (a map
  from property name to the properties of that name) and children. Both maps
  are association lists here, read with \<open>map_of\<close>.
\<close>

record Prop =
  pName :: string
  pParams :: "(string \<times> string list) list"
  pValue :: string

datatype Component =
  Component (cName: string) (cProps: "(string \<times> Prop list) list") (cChildren: "Component list")

text \<open>
  What the code calls without defining: the library's decoder and encoder of
  calendar text, its readers of a property as text and as a date-time in a
  location, and the host's time zone database: \<^verbatim>\<open>time.LoadLocation\<close> and, for
  each location, its offset from UTC in seconds at an instant (given as seconds
  since year 1). They are parameters of the model; \<open>None\<close> is the call's error
  return. The type \<open>'b\<close> is the type of file and response bodies.
\<close>

record 'b host =
  Decode :: "'b \<Rightarrow> Component option"
  Encode :: "Component \<Rightarrow> 'b option"
  PropText :: "Prop \<Rightarrow> string option"
  PropDateTime :: "Prop \<Rightarrow> location \<Rightarrow> time option"
  LoadLocation :: "string \<Rightarrow> location option"
  ZoneOffset :: "location \<Rightarrow> int \<Rightarrow> int"



text \<open>\<^verbatim>\<open>Calendar.Events\<close>: the children named VEVENT, in order.\<close>

definition Events :: "Component \<Rightarrow> Component list" where
  "Events cal = filter (\<lambda>c. cName c = ''VEVENT'') (cChildren cal)"

text \<open>\<^verbatim>\<open>Props.Get\<close>: the first property of that name, if any.\<close>

definition propsGet :: "(string \<times> Prop list) list \<Rightarrow> string \<Rightarrow> Prop option" where
  "propsGet props name =
     (case map_of props name of
        Some (p # _) \<Rightarrow> Some p
      | _ \<Rightarrow> None)"

text \<open>
  \<^verbatim>\<open>Props.Text\<close>: the empty string without error when the property is absent,
  otherwise the library's reading of the property as text.
\<close>

definition propsText :: "'b host \<Rightarrow> (string \<times> Prop list) list \<Rightarrow> string \<Rightarrow> string option" where
  "propsText h props name =
     (case propsGet props name of
        None \<Rightarrow> Some []
      | Some p \<Rightarrow> PropText h p)"

section \<open>The time resolver\<close>

text \<open>
  \<^verbatim>\<open>parseEventTime\<close> (calendar.go). A missing property gives the zero instant.
  The property is all-day when one of its VALUE parameters is DATE. The
  location is the one loaded for the first TZID parameter, or the local one
  when there is none or loading fails. An all-day value is parsed as a bare
  date; any other value is handed to the library, and when the library fails
  the bare-date parse is tried and its result is flagged all-day.
\<close>

definition valueIsDate :: "Prop \<Rightarrow> bool" where
  "valueIsDate p =
     (case map_of (pParams p) ''VALUE'' of
        None \<Rightarrow> False
      | Some values \<Rightarrow> list_ex (\<lambda>v. v = ''DATE'') values)"

definition resolveLoc :: "'b host \<Rightarrow> Prop \<Rightarrow> location" where
  "resolveLoc h p =
     (case map_of (pParams p) ''TZID'' of
        Some (tzid # _) \<Rightarrow>
          (case LoadLocation h tzid of Some l \<Rightarrow> l | None \<Rightarrow> Local)
      | _ \<Rightarrow> Local)"

definition parseEventTime :: "'b host \<Rightarrow> Component \<Rightarrow> string \<Rightarrow> time \<times> bool" where
  "parseEventTime h event prop =
     (case propsGet (cProps event) prop of
        None \<Rightarrow> (zeroTime, False)
      | Some p \<Rightarrow>
          let allDay = valueIsDate p; loc = resolveLoc h p in
          if allDay then
            (case parseDate (pValue p) of
               None \<Rightarrow> (zeroTime, False)
             | Some t \<Rightarrow> (t, True))
          else
            (case PropDateTime h p loc of
               None \<Rightarrow>
                 (case parseDate (pValue p) of
                    None \<Rightarrow> (zeroTime, False)
                  | Some t \<Rightarrow> (t, True))
             | Some t \<Rightarrow> (t, False)))"

section \<open>Event store file names\<close>

text \<open>
  \<^verbatim>\<open>sanitizeFilename\<close> (calendar.go) builds a \<^verbatim>\<open>strings.NewReplacer\<close> whose ten
  old strings are all single bytes, so the replacer works byte by byte: each
  of the nine path-hostile bytes becomes an underscore, the at sign becomes
  the four bytes \<^verbatim>\<open>_at_\<close>, and every other byte is copied.
\<close>

definition hostile :: "char \<Rightarrow> bool" where
  "hostile c = (c \<in> {CHR ''/'', CHR 0x5C, CHR '':'', CHR ''*'', CHR ''?'',
                      CHR 0x22, CHR ''<'', CHR ''>'', CHR ''|''})"

definition replaceByte :: "char \<Rightarrow> string" where
  "replaceByte c =
     (if hostile c then ''_''
      else if c = CHR ''@'' then ''_at_''
      else [c])"

definition sanitizeFilename :: "string \<Rightarrow> string" where
  "sanitizeFilename s = concat (map replaceByte s)"

text \<open>
  Reading a file name from the left with the four bytes \<^verbatim>\<open>_at_\<close> standing for
  an at sign undoes the replacement on the uids of \<open>plainUid\<close>: those with no
  underscore and none of the nine path-hostile bytes.
\<close>

fun unsanitize :: "string \<Rightarrow> string" where
  "unsanitize (a # b # c # d # rest) =
     (if [a, b, c, d] = ''_at_'' then CHR ''@'' # unsanitize rest
      else a # unsanitize (b # c # d # rest))"
| "unsanitize s = s"

definition plainUid :: "string \<Rightarrow> bool" where
  "plainUid s = list_all (\<lambda>c. \<not> hostile c \<and> c \<noteq> CHR ''_'') s"

section \<open>Data and the world outside the process\<close>

record Source =
  Name :: string
  URL :: string

record Event =
  UID :: string
  Summary :: string
  Description :: string
  Location :: string
  Start :: time
  End :: time
  Calendar :: string
  AllDay :: bool

record Config =
  Dir :: string

text \<open>
  The errors the code builds with \<^verbatim>\<open>fmt.Errorf\<close> or passes on, named after
  the kinds of the specification: \<open>IOError\<close> is an error of the operating
  system on a path, \<open>JSONError\<close> one of \<^verbatim>\<open>json.Unmarshal\<close>,
  \<open>DuplicateNameError\<close> is "calendar %q already exists", \<open>NotFoundError\<close>
  "calendar %q not found", \<open>NoSourcesError\<close> "no calendars configured, use 'add'
  to add one", \<open>FetchError\<close> "fetching calendar: ..." (a transport error or
  "HTTP %d"), \<open>ParseError\<close> "parsing calendar: ...", \<open>DecodeError\<close> the
  decoder's error on a stored record and \<open>NoEventsError\<close> "no events in file".
\<close>

datatype fsop = OpReadFile | OpWriteFile | OpMkdirAll | OpReadDir | OpRemove

datatype fetch_cause = Transport | HTTPStatus int

datatype error =
  IOError fsop string
| JSONError
| DuplicateNameError string
| NotFoundError string
| NoSourcesError
| FetchError fetch_cause
| ParseError
| DecodeError
| NoEventsError

text \<open>What \<^verbatim>\<open>http.Get\<close> returns: a transport error, or a status code and a body.\<close>

datatype 'b response = Failed | Response int 'b

text \<open>The lines printed by the sync: "syncing %s...", "  error: %v", "  %d events synced".\<close>

datatype out = Syncing string | ErrorLine error | Synced nat

text \<open>
  The registry file \<^verbatim>\<open>sources.json\<close>: absent, not a JSON array of sources, or
  holding a sequence of sources (what \<^verbatim>\<open>json.MarshalIndent\<close> wrote and
  \<^verbatim>\<open>json.Unmarshal\<close> reads back).
\<close>

datatype srcfile = NoFile | BadJSON | Stored "Source list"

text \<open>
  The world: the registry file, the directories by path (each a list of file
  names with their contents, read with \<open>map_of\<close>), the operations of the
  operating system that fail on a path (permissions, a full disk, a directory
  where a file is expected), the remote feeds by URL, and what has been
  printed. An operation that fails changes nothing.
\<close>

record 'b world =
  sourcesFile :: srcfile
  dirs :: "string \<Rightarrow> (string \<times> 'b) list option"
  faults :: "fsop \<Rightarrow> string \<Rightarrow> bool"
  web :: "string \<Rightarrow> 'b response"
  stdout :: "out list"

subsection \<open>Paths (config.go)\<close>

text \<open>
  \<^verbatim>\<open>filepath.Join\<close> on path elements that are already clean: the elements
  separated by a slash. \<^verbatim>\<open>filepath.Join\<close> also cleans its result, so the
  model is the code only for a source name that is a single path segment
  (\<open>plainName\<close>: not empty, not \<^verbatim>\<open>.\<close> or \<^verbatim>\<open>..\<close>, without a separator); for
  other names the directory of one source can be the directory of another, lie
  inside it, or be the configuration directory itself. A statement that needs
  the directories of different sources to be apart says so with \<open>plainName\<close>.
\<close>

definition plainName :: "string \<Rightarrow> bool" where
  "plainName n =
     (n \<noteq> [] \<and> n \<noteq> ''.'' \<and> n \<noteq> ''..''
      \<and> CHR ''/'' \<notin> set n \<and> CHR 0x5C \<notin> set n)"

definition Join :: "string \<Rightarrow> string \<Rightarrow> string" where
  "Join dir name = dir @ ''/'' @ name"

definition SourcesFile :: "Config \<Rightarrow> string" where
  "SourcesFile c = Join (Dir c) ''sources.json''"

definition EventsDir :: "Config \<Rightarrow> string" where
  "EventsDir c = Join (Dir c) ''events''"

definition CalendarDir :: "Config \<Rightarrow> string \<Rightarrow> string" where
  "CalendarDir c name = Join (EventsDir c) name"

subsection \<open>Operating system calls\<close>

text \<open>
  Each call fails when the world says so for its path, and otherwise acts on
  the directory: \<^verbatim>\<open>os.MkdirAll\<close> creates a missing directory empty,
  \<^verbatim>\<open>os.ReadDir\<close> returns the names sorted by file name (byte order),
  \<^verbatim>\<open>os.ReadFile\<close> the content under a name, \<^verbatim>\<open>os.WriteFile\<close> replaces or
  creates the file of that name in an existing directory, and \<^verbatim>\<open>os.Remove\<close>
  deletes an existing name.
\<close>

definition MkdirAll :: "string \<Rightarrow> 'b world \<Rightarrow> error option \<times> 'b world" where
  "MkdirAll dir w =
     (if faults w OpMkdirAll dir then (Some (IOError OpMkdirAll dir), w)
      else case dirs w dir of
             None \<Rightarrow> (None, w\<lparr>dirs := (dirs w)(dir \<mapsto> [])\<rparr>)
           | Some _ \<Rightarrow> (None, w))"

definition ReadDir :: "string \<Rightarrow> 'b world \<Rightarrow> error + string list" where
  "ReadDir dir w =
     (if faults w OpReadDir dir then Inl (IOError OpReadDir dir)
      else case dirs w dir of
             None \<Rightarrow> Inl (IOError OpReadDir dir)
           | Some es \<Rightarrow> Inr (sort (remdups (map fst es))))"

definition ReadFile :: "string \<Rightarrow> string \<Rightarrow> 'b world \<Rightarrow> error + 'b" where
  "ReadFile dir name w =
     (if faults w OpReadFile (Join dir name) then Inl (IOError OpReadFile (Join dir name))
      else case dirs w dir of
             None \<Rightarrow> Inl (IOError OpReadFile (Join dir name))
           | Some es \<Rightarrow>
               (case map_of es name of
                  None \<Rightarrow> Inl (IOError OpReadFile (Join dir name))
                | Some data \<Rightarrow> Inr data))"

definition WriteFile :: "string \<Rightarrow> string \<Rightarrow> 'b \<Rightarrow> 'b world \<Rightarrow> error option \<times> 'b world" where
  "WriteFile dir name data w =
     (if faults w OpWriteFile (Join dir name) then (Some (IOError OpWriteFile (Join dir name)), w)
      else case dirs w dir of
             None \<Rightarrow> (Some (IOError OpWriteFile (Join dir name)), w)
           | Some es \<Rightarrow>
               (None, w\<lparr>dirs := (dirs w)(dir \<mapsto> (name, data) # filter (\<lambda>e. fst e \<noteq> name) es)\<rparr>))"

definition Remove :: "string \<Rightarrow> string \<Rightarrow> 'b world \<Rightarrow> error option \<times> 'b world" where
  "Remove dir name w =
     (if faults w OpRemove (Join dir name) then (Some (IOError OpRemove (Join dir name)), w)
      else case dirs w dir of
             None \<Rightarrow> (Some (IOError OpRemove (Join dir name)), w)
           | Some es \<Rightarrow>
               if name \<notin> fst ` set es then (Some (IOError OpRemove (Join dir name)), w)
               else (None, w\<lparr>dirs := (dirs w)(dir \<mapsto> filter (\<lambda>e. fst e \<noteq> name) es)\<rparr>))"

text \<open>\<^verbatim>\<open>strings.HasSuffix\<close>.\<close>

definition HasSuffix :: "string \<Rightarrow> string \<Rightarrow> bool" where
  "HasSuffix s suffix =
     (length s \<ge> length suffix \<and> drop (length s - length suffix) s = suffix)"

definition printLine :: "out \<Rightarrow> 'b world \<Rightarrow> 'b world" where
  "printLine l w = w\<lparr>stdout := stdout w @ [l]\<rparr>"

section \<open>Source management\<close>

text \<open>
  \<^verbatim>\<open>LoadSources\<close>: a missing file is the empty sequence; any other read error
  and a file that is not a JSON array of sources are errors.
\<close>

definition LoadSources :: "Config \<Rightarrow> 'b world \<Rightarrow> error + Source list" where
  "LoadSources c w =
     (if faults w OpReadFile (SourcesFile c) then Inl (IOError OpReadFile (SourcesFile c))
      else case sourcesFile w of
             NoFile \<Rightarrow> Inr []
           | BadJSON \<Rightarrow> Inl JSONError
           | Stored sources \<Rightarrow> Inr sources)"

subsection \<open>Strings through JSON\<close>

text \<open>
  \<^verbatim>\<open>encoding/json\<close> writes a string coerced to valid UTF-8: it walks the bytes
  with \<^verbatim>\<open>utf8.DecodeRuneInString\<close>, keeps every well-formed rune, and writes
  the replacement character U+FFFD (bytes EF BF BD once read back) for each
  byte that does not start one. A rune is well formed when its first byte
  announces a width of one to four bytes, that many bytes are there, the
  second byte lies in the range the first byte allows (which excludes
  overlong forms, surrogates and values above U+10FFFF) and the others are
  continuation bytes. Reading back what was written gives the coerced string.
\<close>

definition runeWidth :: "nat \<Rightarrow> nat" where
  "runeWidth b0 =
     (if b0 < 0x80 then 1
      else if 0xC2 \<le> b0 \<and> b0 \<le> 0xDF then 2
      else if 0xE0 \<le> b0 \<and> b0 \<le> 0xEF then 3
      else if 0xF0 \<le> b0 \<and> b0 \<le> 0xF4 then 4
      else 0)"

definition contByte :: "nat \<Rightarrow> bool" where
  "contByte b = (0x80 \<le> b \<and> b \<le> 0xBF)"

definition secondByteOk :: "nat \<Rightarrow> nat \<Rightarrow> bool" where
  "secondByteOk b0 b1 =
     (if b0 = 0xE0 then 0xA0 \<le> b1 \<and> b1 \<le> 0xBF
      else if b0 = 0xED then 0x80 \<le> b1 \<and> b1 \<le> 0x9F
      else if b0 = 0xF0 then 0x90 \<le> b1 \<and> b1 \<le> 0xBF
      else if b0 = 0xF4 then 0x80 \<le> b1 \<and> b1 \<le> 0x8F
      else contByte b1)"

definition wellFormedRune :: "nat list \<Rightarrow> bool" where
  "wellFormedRune bs =
     (case bs of
        [b0] \<Rightarrow> b0 < 0x80
      | [b0, b1] \<Rightarrow> runeWidth b0 = 2 \<and> secondByteOk b0 b1
      | [b0, b1, b2] \<Rightarrow> runeWidth b0 = 3 \<and> secondByteOk b0 b1 \<and> contByte b2
      | [b0, b1, b2, b3] \<Rightarrow>
          runeWidth b0 = 4 \<and> secondByteOk b0 b1 \<and> contByte b2 \<and> contByte b3
      | _ \<Rightarrow> False)"

definition replacementChar :: string where
  "replacementChar = [CHR 0xEF, CHR 0xBF, CHR 0xBD]"

function toValidUTF8 :: "string \<Rightarrow> string" where
  "toValidUTF8 [] = []"
| "toValidUTF8 (a # rest) =
     (if runeWidth (of_char a) \<noteq> 0
         \<and> runeWidth (of_char a) \<le> length (a # rest)
         \<and> wellFormedRune (map of_char (take (runeWidth (of_char a)) (a # rest)))
      then take (runeWidth (of_char a)) (a # rest)
             @ toValidUTF8 (drop (runeWidth (of_char a) - 1) rest)
      else replacementChar @ toValidUTF8 rest)"
  by pat_completeness auto
termination
  by (relation "measure length") auto

text \<open>A source as it is read back after it was written to the registry file.\<close>

definition jsonSource :: "Source \<Rightarrow> Source" where
  "jsonSource s = \<lparr>Name = toValidUTF8 (Name s), URL = toValidUTF8 (URL s)\<rparr>"

text \<open>
  \<^verbatim>\<open>SaveSources\<close>: \<^verbatim>\<open>json.MarshalIndent\<close> cannot fail on a slice of structs of
  two strings, so the only error is the one of \<^verbatim>\<open>os.WriteFile\<close>. The file then
  holds the sources as JSON keeps them.
\<close>

definition SaveSources :: "Config \<Rightarrow> Source list \<Rightarrow> 'b world \<Rightarrow> error option \<times> 'b world" where
  "SaveSources c sources w =
     (if faults w OpWriteFile (SourcesFile c) then (Some (IOError OpWriteFile (SourcesFile c)), w)
      else (None, w\<lparr>sourcesFile := Stored (map jsonSource sources)\<rparr>))"

definition AddSource :: "Config \<Rightarrow> string \<Rightarrow> string \<Rightarrow> 'b world \<Rightarrow> error option \<times> 'b world" where
  "AddSource c name url w =
     (case LoadSources c w of
        Inl e \<Rightarrow> (Some e, w)
      | Inr sources \<Rightarrow>
          if list_ex (\<lambda>s. Name s = name) sources then (Some (DuplicateNameError name), w)
          else SaveSources c (sources @ [\<lparr>Name = name, URL = url\<rparr>]) w)"

section \<open>Sync\<close>

text \<open>
  The calendar object one event is wrapped in before it is encoded:
  \<^verbatim>\<open>ical.NewCalendar()\<close> with VERSION and PRODID set and the event as its only
  child.
\<close>

definition textProp :: "string \<Rightarrow> string \<Rightarrow> Prop" where
  "textProp name text = \<lparr>pName = name, pParams = [], pValue = text\<rparr>"

definition wrapEvent :: "Component \<Rightarrow> Component" where
  "wrapEvent event =
     Component ''VCALENDAR''
       [(''VERSION'', [textProp ''VERSION'' ''2.0'']),
        (''PRODID'', [textProp ''PRODID'' ''-//arjungandhi/calendar//EN''])]
       [event]"

text \<open>The loop that clears the directory: the error of each removal is dropped.\<close>

fun removeEntries :: "string \<Rightarrow> string list \<Rightarrow> 'b world \<Rightarrow> 'b world" where
  "removeEntries dir [] w = w"
| "removeEntries dir (e # entries) w = removeEntries dir entries (snd (Remove dir e w))"

text \<open>
  The loop over the feed's events: an event without a readable, non-empty UID,
  one that does not encode and one whose file cannot be written are skipped;
  the others are counted.
\<close>

fun writeEvents :: "'b host \<Rightarrow> string \<Rightarrow> Component list \<Rightarrow> nat \<Rightarrow> 'b world \<Rightarrow> nat \<times> 'b world" where
  "writeEvents h dir [] cnt w = (cnt, w)"
| "writeEvents h dir (event # events) cnt w =
     (case propsText h (cProps event) ''UID'' of
        None \<Rightarrow> writeEvents h dir events cnt w
      | Some uid \<Rightarrow>
          if uid = [] then writeEvents h dir events cnt w
          else
            (case Encode h (wrapEvent event) of
               None \<Rightarrow> writeEvents h dir events cnt w
             | Some buf \<Rightarrow>
                 (case WriteFile dir (sanitizeFilename uid @ ''.ics'') buf w of
                    (Some err, w') \<Rightarrow> writeEvents h dir events cnt w'
                  | (None, w') \<Rightarrow> writeEvents h dir events (cnt + 1) w')))"

definition syncSource :: "'b host \<Rightarrow> Config \<Rightarrow> Source \<Rightarrow> 'b world \<Rightarrow> error option \<times> 'b world" where
  "syncSource h c s w =
     (case web w (URL s) of
        Failed \<Rightarrow> (Some (FetchError Transport), w)
      | Response status body \<Rightarrow>
          if status \<noteq> 200 then (Some (FetchError (HTTPStatus status)), w)
          else
            (case Decode h body of
               None \<Rightarrow> (Some ParseError, w)
             | Some cal \<Rightarrow>
                 let dir = CalendarDir c (Name s) in
                 (case MkdirAll dir w of
                    (Some err, w1) \<Rightarrow> (Some err, w1)
                  | (None, w1) \<Rightarrow>
                      let entries = (case ReadDir dir w1 of Inl err \<Rightarrow> [] | Inr es \<Rightarrow> es);
                          w2 = removeEntries dir entries w1;
                          (cnt, w3) = writeEvents h dir (Events cal) 0 w2
                      in (None, printLine (Synced cnt) w3))))"

fun syncLoop :: "'b host \<Rightarrow> Config \<Rightarrow> Source list \<Rightarrow> 'b world \<Rightarrow> 'b world" where
  "syncLoop h c [] w = w"
| "syncLoop h c (s # sources) w =
     (case syncSource h c s (printLine (Syncing (Name s)) w) of
        (Some err, w') \<Rightarrow> syncLoop h c sources (printLine (ErrorLine err) w')
      | (None, w') \<Rightarrow> syncLoop h c sources w')"

definition SyncAll :: "'b host \<Rightarrow> Config \<Rightarrow> 'b world \<Rightarrow> error option \<times> 'b world" where
  "SyncAll h c w =
     (case LoadSources c w of
        Inl err \<Rightarrow> (Some err, w)
      | Inr sources \<Rightarrow>
          if length sources = 0 then (Some NoSourcesError, w)
          else (None, syncLoop h c sources w))"

section \<open>Event retrieval\<close>

definition textOrEmpty :: "'b host \<Rightarrow> Component \<Rightarrow> string \<Rightarrow> string" where
  "textOrEmpty h ie name = (case propsText h (cProps ie) name of None \<Rightarrow> [] | Some t \<Rightarrow> t)"

definition readEvent :: "'b host \<Rightarrow> string \<Rightarrow> string \<Rightarrow> string \<Rightarrow> 'b world \<Rightarrow> error + Event" where
  "readEvent h dir name calName w =
     (case ReadFile dir name w of
        Inl err \<Rightarrow> Inl err
      | Inr data \<Rightarrow>
          (case Decode h data of
             None \<Rightarrow> Inl DecodeError
           | Some cal \<Rightarrow>
               (case Events cal of
                  [] \<Rightarrow> Inl NoEventsError
                | ie # _ \<Rightarrow>
                    let (start, allDay) = parseEventTime h ie ''DTSTART'';
                        (end', _) = parseEventTime h ie ''DTEND''
                    in Inr \<lparr>UID = textOrEmpty h ie ''UID'',
                            Summary = textOrEmpty h ie ''SUMMARY'',
                            Description = textOrEmpty h ie ''DESCRIPTION'',
                            Location = textOrEmpty h ie ''LOCATION'',
                            Start = start,
                            End = end',
                            Calendar = calName,
                            AllDay = allDay\<rparr>)))"

fun readEntries :: "'b host \<Rightarrow> string \<Rightarrow> string \<Rightarrow> string list \<Rightarrow> 'b world \<Rightarrow> Event list" where
  "readEntries h dir calName [] w = []"
| "readEntries h dir calName (entry # entries) w =
     (if \<not> HasSuffix entry ''.ics'' then readEntries h dir calName entries w
      else case readEvent h dir entry calName w of
             Inl err \<Rightarrow> readEntries h dir calName entries w
           | Inr event \<Rightarrow> event # readEntries h dir calName entries w)"

definition loadCalendarEvents :: "'b host \<Rightarrow> Config \<Rightarrow> string \<Rightarrow> 'b world \<Rightarrow> error + Event list" where
  "loadCalendarEvents h c calName w =
     (let dir = CalendarDir c calName in
      case ReadDir dir w of
        Inl err \<Rightarrow> Inl err
      | Inr entries \<Rightarrow> Inr (readEntries h dir calName entries w))"

fun gatherEvents :: "'b host \<Rightarrow> Config \<Rightarrow> Source list \<Rightarrow> 'b world \<Rightarrow> Event list" where
  "gatherEvents h c [] w = []"
| "gatherEvents h c (s # sources) w =
     (case loadCalendarEvents h c (Name s) w of
        Inl err \<Rightarrow> gatherEvents h c sources w
      | Inr calEvents \<Rightarrow> calEvents @ gatherEvents h c sources w)"

fun rangeFilter :: "time \<Rightarrow> time \<Rightarrow> Event list \<Rightarrow> Event list" where
  "rangeFilter from to [] = []"
| "rangeFilter from to (e # events) =
     (if \<not> IsZero from \<and> Before (Start e) from then rangeFilter from to events
      else if \<not> IsZero to \<and> After (Start e) to then rangeFilter from to events
      else e # rangeFilter from to events)"

text \<open>
  \<^verbatim>\<open>sort.Slice(filtered, less)\<close> with \<^verbatim>\<open>less(i, j) = filtered[i].Start.Before(filtered[j].Start)\<close>.
  The standard library sorts a slice of up to twelve elements by insertion:
  each element in turn is swapped towards the front while it is less than
  its left neighbour. A longer slice goes through pattern-defeating quicksort,
  which gives the same elements ordered by \<^verbatim>\<open>less\<close> but may leave elements
  with equal start in another relative order; nothing below depends on the
  order of elements with equal start.
\<close>

text \<open>
  \<open>front\<close> is the part already sorted, held from right to left: its head is
  the left neighbour of the element being moved.
\<close>

fun sinkLeft :: "('a \<Rightarrow> 'a \<Rightarrow> bool) \<Rightarrow> 'a \<Rightarrow> 'a list \<Rightarrow> 'a list" where
  "sinkLeft lt x [] = [x]"
| "sinkLeft lt x (y # front) =
     (if lt x y then y # sinkLeft lt x front else x # y # front)"

fun insertionSort :: "('a \<Rightarrow> 'a \<Rightarrow> bool) \<Rightarrow> 'a list \<Rightarrow> 'a list \<Rightarrow> 'a list" where
  "insertionSort lt front [] = rev front"
| "insertionSort lt front (x # rest) = insertionSort lt (sinkLeft lt x front) rest"

definition sortSlice :: "('a \<Rightarrow> 'a \<Rightarrow> bool) \<Rightarrow> 'a list \<Rightarrow> 'a list" where
  "sortSlice lt xs = insertionSort lt [] xs"

definition ListEvents :: "'b host \<Rightarrow> Config \<Rightarrow> time \<Rightarrow> time \<Rightarrow> 'b world \<Rightarrow> error + Event list" where
  "ListEvents h c from to w =
     (case LoadSources c w of
        Inl err \<Rightarrow> Inl err
      | Inr sources \<Rightarrow>
          let events = gatherEvents h c sources w;
              filtered = rangeFilter from to events
          in Inr (sortSlice (\<lambda>a b. Before (Start a) (Start b)) filtered))"

section \<open>Notions used to state the properties\<close>

text \<open>
  The uid a stored record carries: the one \<^verbatim>\<open>readEvent\<close> gives the event it
  decodes from the record's bytes (the UID of the first event of the decoded
  calendar). \<^verbatim>\<open>GetEvent\<close> finds a record by comparing this uid. A directory
  has a record for a uid when one of its files carries it.
\<close>

definition recordUid :: "'b host \<Rightarrow> 'b \<Rightarrow> string option" where
  "recordUid h data =
     (case Decode h data of
        None \<Rightarrow> None
      | Some cal \<Rightarrow>
          (case Events cal of
             [] \<Rightarrow> None
           | ie # _ \<Rightarrow> Some (textOrEmpty h ie ''UID'')))"

definition hasRecord :: "'b host \<Rightarrow> string \<Rightarrow> string \<Rightarrow> 'b world \<Rightarrow> bool" where
  "hasRecord h dir u w =
     (case dirs w dir of
        None \<Rightarrow> False
      | Some es \<Rightarrow> list_ex (\<lambda>e. recordUid h (snd e) = Some u) es)"

text \<open>A feed contains a uid when one of its events reads that UID.\<close>

definition feedHasUid :: "'b host \<Rightarrow> Component \<Rightarrow> string \<Rightarrow> bool" where
  "feedHasUid h cal u =
     list_ex (\<lambda>event. propsText h (cProps event) ''UID'' = Some u) (Events cal)"

text \<open>
  The records of a feed's events read back their uid: whenever the library
  encodes one of these events, wrapped as the sync wraps it, the record it
  produced carries the uid the event was stored under.
\<close>

definition readsBackUids :: "'b host \<Rightarrow> Component list \<Rightarrow> bool" where
  "readsBackUids h events =
     (\<forall>event\<in>set events. \<forall>uid data.
         propsText h (cProps event) ''UID'' = Some uid \<and> Encode h (wrapEvent event) = Some data
         \<longrightarrow> recordUid h data = Some uid)"

text \<open>
  What the sync of a source reads of the world: the feeds, the failing
  operations and the source's own directory.
\<close>

definition sameView :: "string \<Rightarrow> 'b world \<Rightarrow> 'b world \<Rightarrow> bool" where
  "sameView dir w1 w2 = (web w1 = web w2 \<and> faults w1 = faults w2 \<and> dirs w1 dir = dirs w2 dir)"

text \<open>
  One turn of the batch loop: print the source's name, sync it on the world as
  it is now, and print the error if there is one.
\<close>

definition batchStep :: "'b host \<Rightarrow> Config \<Rightarrow> 'b world \<Rightarrow> Source \<Rightarrow> 'b world" where
  "batchStep h c w s =
     (let r = syncSource h c s (printLine (Syncing (Name s)) w) in
      case fst r of
        Some err \<Rightarrow> printLine (ErrorLine err) (snd r)
      | None \<Rightarrow> snd r)"

text \<open>
  A directory entry written by the loop over a feed's events: the file name is
  the sanitized non-empty uid of one of the events plus \<^verbatim>\<open>.ics\<close>, the content
  is that event wrapped and encoded.
\<close>

definition writtenBy :: "'b host \<Rightarrow> Component list \<Rightarrow> string \<times> 'b \<Rightarrow> bool" where
  "writtenBy h events e =
     (\<exists>event\<in>set events. \<exists>uid.
         propsText h (cProps event) ''UID'' = Some uid \<and> uid \<noteq> []
         \<and> Encode h (wrapEvent event) = Some (snd e)
         \<and> fst e = sanitizeFilename uid @ ''.ics'')"

text \<open>The names on the "syncing ..." lines of the output, in order.\<close>

definition syncingNames :: "out list \<Rightarrow> string list" where
  "syncingNames ls = concat (map (\<lambda>l. case l of Syncing n \<Rightarrow> [n] | _ \<Rightarrow> []) ls)"

section \<open>Example inputs\<close>

text \<open>
  A host that follows go-ical on the inputs used below; its file and response
  bodies are calendar objects themselves.
  \<^item> It decodes the components named VCALENDAR.
  \<^item> It encodes a VCALENDAR that has children, exactly one PRODID and one
    VERSION, and whose VEVENT children each have exactly one DTSTAMP, exactly
    one UID and no children (among the checks of go-ical's encoder).
  \<^item> It reads a property's text as its raw value.
  \<^item> Its date-time reader takes the value type from the first VALUE parameter,
    or from the length of the value when there is none (8 bytes a date, 15 a
    date-time), reads a date as midnight and a date-time as that time of day on
    the clock of the location it is given, and fails on any other value type.
  \<^item> It knows one time zone, New York, four hours behind UTC (its daylight
    time, as in March 2024); the local zone is UTC.
\<close>

definition exactlyOne :: "(string \<times> Prop list) list \<Rightarrow> string \<Rightarrow> bool" where
  "exactlyOne props name = (case map_of props name of Some [p] \<Rightarrow> True | _ \<Rightarrow> False)"

definition exampleEncodes :: "Component \<Rightarrow> bool" where
  "exampleEncodes cal =
     (cName cal = ''VCALENDAR'' \<and> cChildren cal \<noteq> []
      \<and> exactlyOne (cProps cal) ''PRODID'' \<and> exactlyOne (cProps cal) ''VERSION''
      \<and> list_all (\<lambda>child. if cName child = ''VEVENT''
                            then exactlyOne (cProps child) ''DTSTAMP''
                                 \<and> exactlyOne (cProps child) ''UID'' \<and> cChildren child = []
                            else True) (cChildren cal))"

definition exampleOffset :: "location \<Rightarrow> int" where
  "exampleOffset l = (if l = Zone ''America/New_York'' then - 14400 else 0)"

definition inZone :: "location \<Rightarrow> int \<Rightarrow> time" where
  "inZone l civil = \<lparr>t_sec = civil - exampleOffset l, t_nsec = 0, t_loc = l\<rparr>"

fun exampleClock :: "string \<Rightarrow> int option" where
  "exampleClock [h1, h2, m1, m2, s1, s2] =
     (if list_all isDigit [h1, h2, m1, m2, s1, s2] then
        let hour = digitVal h1 * 10 + digitVal h2;
            minute = digitVal m1 * 10 + digitVal m2;
            second = digitVal s1 * 10 + digitVal s2
        in if hour < 24 \<and> minute < 60 \<and> second < 60
           then Some (hour * 3600 + minute * 60 + second) else None
      else None)"
| "exampleClock s = None"

definition exampleDate :: "location \<Rightarrow> string \<Rightarrow> time option" where
  "exampleDate l v = map_option (\<lambda>t. inZone l (t_sec t)) (parseDate v)"

definition exampleDateTime :: "location \<Rightarrow> string \<Rightarrow> time option" where
  "exampleDateTime l v =
     (if length v = 15 \<and> v ! 8 = CHR ''T'' then
        (case (parseDate (take 8 v), exampleClock (drop 9 v)) of
           (Some d, Some s) \<Rightarrow> Some (inZone l (t_sec d + s))
         | _ \<Rightarrow> None)
      else None)"

definition exampleReader :: "Prop \<Rightarrow> location \<Rightarrow> time option" where
  "exampleReader p l =
     (case map_of (pParams p) ''VALUE'' of
        Some (v # _) \<Rightarrow>
          (if v = ''DATE'' then exampleDate l (pValue p)
           else if v = ''DATE-TIME'' then exampleDateTime l (pValue p)
           else None)
      | _ \<Rightarrow>
          (if length (pValue p) = 8 then exampleDate l (pValue p)
           else exampleDateTime l (pValue p)))"

definition exampleHost :: "Component host" where
  "exampleHost =
     \<lparr>Decode = (\<lambda>b. if cName b = ''VCALENDAR'' then Some b else None),
      Encode = (\<lambda>cal. if exampleEncodes cal then Some cal else None),
      PropText = (\<lambda>p. Some (pValue p)),
      PropDateTime = exampleReader,
      LoadLocation = (\<lambda>n. if n = ''America/New_York'' then Some (Zone n) else None),
      ZoneOffset = (\<lambda>l t. exampleOffset l)\<rparr>"

text \<open>An event with a uid, a time stamp and a start.\<close>

definition exampleEvent :: "string \<Rightarrow> (string \<times> string list) list \<Rightarrow> string \<Rightarrow> Component" where
  "exampleEvent uid params v =
     Component ''VEVENT''
       [(''UID'', [textProp ''UID'' uid]),
        (''DTSTAMP'', [textProp ''DTSTAMP'' ''20240101T000000Z'']),
        (''DTSTART'', [\<lparr>pName = ''DTSTART'', pParams = params, pValue = v\<rparr>])] []"

definition exampleFeed :: "Component list \<Rightarrow> Component" where
  "exampleFeed events = Component ''VCALENDAR'' [] events"

definition exampleConfig :: Config where
  "exampleConfig = \<lparr>Dir = ''/cfg''\<rparr>"

definition workSource :: Source where
  "workSource = \<lparr>Name = ''work'', URL = ''http://w''\<rparr>"

definition homeSource :: Source where
  "homeSource = \<lparr>Name = ''home'', URL = ''http://h''\<rparr>"

text \<open>
  A world with two sources: the store of the first holds two records, its
  feed is unreachable; the store of the second does not exist yet, its feed
  holds one event with uid \<^verbatim>\<open>a\<close>. No operation of the operating system fails.
\<close>

definition exampleWorld :: "Component world" where
  "exampleWorld =
     \<lparr>sourcesFile = Stored [workSource, homeSource],
      dirs = (\<lambda>p. if p = ''/cfg/events/work''
                  then Some [(''e2.ics'', wrapEvent (exampleEvent ''e2'' [(''TZID'', [''America/New_York''])] ''20240315T090000'')),
                             (''e1.ics'', wrapEvent (exampleEvent ''e1'' [(''VALUE'', [''DATE''])] ''20240315''))]
                  else None),
      faults = (\<lambda>op p. False),
      web = (\<lambda>u. if u = ''http://w'' then Failed
                  else Response 200 (exampleFeed [exampleEvent ''a'' [] ''20240101''])),
      stdout = []\<rparr>"

text \<open>The second feed of the home source: it holds uid \<^verbatim>\<open>b\<close> and no longer uid \<^verbatim>\<open>a\<close>.\<close>

definition secondFeed :: "string \<Rightarrow> Component response" where
  "secondFeed u = Response 200 (exampleFeed [exampleEvent ''b'' [] ''20240102''])"

text \<open>
  The example world with every feed answering status 203 (Non-Authoritative
  Information) and a body that decodes, and with every feed answering status
  200 and a body that is not a calendar.
\<close>

definition status203 :: "string \<Rightarrow> Component response" where
  "status203 u = Response 203 (exampleFeed [])"

definition world203 :: "Component world" where
  "world203 = exampleWorld\<lparr>web := status203\<rparr>"

definition notCalendar :: "string \<Rightarrow> Component response" where
  "notCalendar u = Response 200 (Component ''HTML'' [] [])"

definition worldNotCalendar :: "Component world" where
  "worldNotCalendar = exampleWorld\<lparr>web := notCalendar\<rparr>"

text \<open>
  The example world with a registry file, written by hand, that names the
  source \<^verbatim>\<open>work\<close> twice.
\<close>

definition workMirror :: Source where
  "workMirror = \<lparr>Name = ''work'', URL = ''http://v''\<rparr>"

definition worldTwiceWork :: "Component world" where
  "worldTwiceWork = exampleWorld\<lparr>sourcesFile := Stored [workSource, workMirror]\<rparr>"

text \<open>A directory that has become read-only: removing and writing fail.\<close>

definition readOnly :: "fsop \<Rightarrow> string \<Rightarrow> bool" where
  "readOnly op p = (op = OpRemove \<or> op = OpWriteFile)"

section \<open>Properties of the file-name mapping\<close>

lemma sanitizeFilename_Nil: "sanitizeFilename [] = []"
  by (simp add: sanitizeFilename_def)

lemma sanitizeFilename_Cons:
  "sanitizeFilename (c # cs) = replaceByte c @ sanitizeFilename cs"
  by (simp add: sanitizeFilename_def)

lemma unsanitize_other: "c \<noteq> CHR ''_'' \<Longrightarrow> unsanitize (c # s) = c # unsanitize s"
  by (cases "c # s" rule: unsanitize.cases) auto

lemma unsanitize_sanitizeFilename:
  "plainUid s \<Longrightarrow> unsanitize (sanitizeFilename s) = s"
proof (induction s)
  case Nil
  show ?case by (simp add: sanitizeFilename_Nil)
next
  case (Cons c cs)
  then have c: "\<not> hostile c" "c \<noteq> CHR ''_''"
    and IH: "unsanitize (sanitizeFilename cs) = cs"
    by (simp_all add: plainUid_def)
  show ?case
  proof (cases "c = CHR ''@''")
    case True
    then show ?thesis
      using c IH by (simp add: sanitizeFilename_Cons replaceByte_def)
  next
    case False
    then show ?thesis
      using c IH by (simp add: sanitizeFilename_Cons replaceByte_def unsanitize_other)
  qed
qed

text \<open>
  C5 (as stated, refuted): two distinct uids of the usual local-part@host shape
  that differ only in which path-hostile byte they carry get the same file
  name, so the mapping from uid to file name is not one to one.
\<close>

theorem C5_sanitizeFilename_collision:
  "''2024/1@example.com'' \<noteq> ''2024:1@example.com'' \<and>
   sanitizeFilename ''2024/1@example.com'' = sanitizeFilename ''2024:1@example.com''"
  by (simp add: sanitizeFilename_def replaceByte_def hostile_def)

text \<open>
  C5 (amended): on uids that contain no underscore and none of the nine
  path-hostile bytes (an at sign is allowed), distinct uids get distinct file
  names.
\<close>

theorem C5_sanitizeFilename_injective_on_plain:
  "plainUid u1 \<Longrightarrow> plainUid u2 \<Longrightarrow> u1 \<noteq> u2 \<Longrightarrow>
   sanitizeFilename u1 \<noteq> sanitizeFilename u2"
proof
  assume p1: "plainUid u1" and p2: "plainUid u2" and ne: "u1 \<noteq> u2"
    and eq: "sanitizeFilename u1 = sanitizeFilename u2"
  have "u1 = unsanitize (sanitizeFilename u1)"
    using p1 by (simp add: unsanitize_sanitizeFilename)
  also have "\<dots> = unsanitize (sanitizeFilename u2)"
    using eq by simp
  also have "\<dots> = u2"
    using p2 by (simp add: unsanitize_sanitizeFilename)
  finally show False
    using ne by simp
qed

theorem C5_sanitizeFilename_injective_witness:
  "plainUid ''ev1@example.com'' \<and> plainUid ''ev2@example.com'' \<and>
   ''ev1@example.com'' \<noteq> ''ev2@example.com'' \<and>
   sanitizeFilename ''ev1@example.com'' = ''ev1_at_example.com'' \<and>
   sanitizeFilename ''ev1@example.com'' \<noteq> sanitizeFilename ''ev2@example.com''"
proof -
  have p1: "plainUid ''ev1@example.com''" and p2: "plainUid ''ev2@example.com''"
    by (simp_all add: plainUid_def hostile_def)
  have ne: "''ev1@example.com'' \<noteq> ''ev2@example.com''"
    by simp
  have v: "sanitizeFilename ''ev1@example.com'' = ''ev1_at_example.com''"
    by (simp add: sanitizeFilename_def replaceByte_def hostile_def)
  show ?thesis
    using p1 p2 ne v C5_sanitizeFilename_injective_on_plain [OF p1 p2 ne] by simp
qed

section \<open>Properties of the time resolver\<close>

lemma parseDate_20240315: "parseDate ''20240315'' = Some (DateUTC 2024 3 15 0 0 0 0)"
  by (simp add: isDigit_def digitVal_def daysIn_def isLeap_def daysBefore_def)

lemma parseDate_20240315T090000: "parseDate ''20240315T090000'' = None"
  by (simp add: isDigit_def digitVal_def daysIn_def isLeap_def daysBefore_def)

lemma DateUTC_20240315:
  "DateUTC 2024 3 15 0 0 0 0 = \<lparr>t_sec = 63846057600, t_nsec = 0, t_loc = UTC\<rparr>"
  by (simp add: DateUTC_def daysSinceYear1_def isLeap_def daysBefore_def)


lemma parseEventTime_timed:
  "propsGet (cProps event) prop = Some p \<Longrightarrow> \<not> valueIsDate p \<Longrightarrow>
   parseEventTime h event prop =
     (case PropDateTime h p (resolveLoc h p) of
        None \<Rightarrow> (case parseDate (pValue p) of None \<Rightarrow> (zeroTime, False) | Some t \<Rightarrow> (t, True))
      | Some t \<Rightarrow> (t, False))"
  by (simp add: parseEventTime_def)




lemmas example_defs =
  exampleHost_def exampleEvent_def exampleFeed_def exampleConfig_def workSource_def
  homeSource_def exampleWorld_def secondFeed_def readOnly_def

lemmas example_reader_defs =
  exampleReader_def exampleDate_def exampleDateTime_def inZone_def exampleOffset_def
  isDigit_def digitVal_def daysIn_def isLeap_def daysBefore_def DateUTC_def daysSinceYear1_def



text \<open>
  C10: for a property found under the requested name whose parameters do not
  declare VALUE=DATE, if the library's date-time reader fails on it in the
  resolved location and the bare-date parse of its value succeeds with a date,
  the resolver returns that date with all-day = true.
\<close>

theorem C10_parseEventTime_fallback_all_day:
  assumes "propsGet (cProps event) prop = Some p"
    and "\<not> valueIsDate p"
    and "PropDateTime h p (resolveLoc h p) = None"
    and "parseDate (pValue p) = Some t"
  shows "parseEventTime h event prop = (t, True)"
  using assms by (simp add: parseEventTime_timed)

theorem C10_parseEventTime_fallback_witness:
  "parseEventTime exampleHost (exampleEvent ''e3'' [(''VALUE'', [''TEXT''])] ''20240315'') ''DTSTART''
     = (\<lparr>t_sec = 63846057600, t_nsec = 0, t_loc = UTC\<rparr>, True)"
proof -
  define p :: Prop where
    "p = \<lparr>pName = ''DTSTART'', pParams = [(''VALUE'', [''TEXT''])], pValue = ''20240315''\<rparr>"
  have g: "propsGet (cProps (exampleEvent ''e3'' [(''VALUE'', [''TEXT''])] ''20240315'')) ''DTSTART'' = Some p"
    by (simp add: propsGet_def exampleEvent_def p_def)
  have nd: "\<not> valueIsDate p"
    by (simp add: valueIsDate_def p_def)
  have lib: "PropDateTime exampleHost p (resolveLoc exampleHost p) = None"
    by (simp add: p_def exampleHost_def exampleReader_def)
  have pd: "parseDate (pValue p) = Some \<lparr>t_sec = 63846057600, t_nsec = 0, t_loc = UTC\<rparr>"
    by (simp add: p_def parseDate_20240315 DateUTC_20240315 del: parseDate.simps)
  show ?thesis
    using C10_parseEventTime_fallback_all_day [OF g nd lib pd] .
qed

section \<open>Properties of the source registry\<close>

lemma distinct_count_one:
  "distinct (map f xs) \<Longrightarrow> x \<in> set xs \<Longrightarrow> length (filter (\<lambda>y. f y = f x) xs) = 1"
proof (induction xs)
  case Nil
  then show ?case by simp
next
  case (Cons a xs)
  show ?case
  proof (cases "f a = f x")
    case True
    with Cons.prems have "\<forall>y\<in>set xs. f y \<noteq> f x"
      by (auto simp: image_iff)
    then have "filter (\<lambda>y. f y = f x) xs = []"
      by (simp add: filter_empty_conv)
    with True show ?thesis by simp
  next
    case False
    with Cons show ?thesis by auto
  qed
qed

lemma toValidUTF8_ascii:
  "list_all (\<lambda>c. of_char c < (128::nat)) s \<Longrightarrow> toValidUTF8 s = s"
  by (induction s) (simp_all add: runeWidth_def wellFormedRune_def)

lemma jsonSource_ascii:
  "list_all (\<lambda>c. of_char c < (128::nat)) (Name s) \<Longrightarrow>
   list_all (\<lambda>c. of_char c < (128::nat)) (URL s) \<Longrightarrow> jsonSource s = s"
  by (simp add: jsonSource_def toValidUTF8_ascii)

lemma LoadSources_SaveSources:
  "\<not> faults w OpReadFile (SourcesFile c) \<Longrightarrow> \<not> faults w OpWriteFile (SourcesFile c) \<Longrightarrow>
   fst (SaveSources c ss w) = None
   \<and> LoadSources c (snd (SaveSources c ss w)) = Inr (map jsonSource ss)"
  by (simp add: SaveSources_def LoadSources_def)

lemma LoadSources_Inr_readable:
  "LoadSources c w = Inr ss \<Longrightarrow> \<not> faults w OpReadFile (SourcesFile c)"
  by (auto simp: LoadSources_def split: if_splits)

text \<open>
  Adding sources keeps the names of the registry distinct, as long as the
  names are ones JSON stores unchanged (valid UTF-8).
\<close>

lemma AddSource_keeps_names_distinct:
  assumes load: "LoadSources c w = Inr sources" and d: "distinct (map Name sources)"
    and valid: "toValidUTF8 name = name" "\<forall>s\<in>set sources. toValidUTF8 (Name s) = Name s"
    and after: "LoadSources c (snd (AddSource c name url w)) = Inr sources'"
  shows "distinct (map Name sources')"
proof (cases "list_ex (\<lambda>s. Name s = name) sources")
  case True
  then have "AddSource c name url w = (Some (DuplicateNameError name), w)"
    using load by (simp add: AddSource_def)
  then show ?thesis using load after d by simp
next
  case False
  then have fresh: "name \<notin> set (map Name sources)"
    by (auto simp: list_ex_iff)
  have add: "AddSource c name url w = SaveSources c (sources @ [\<lparr>Name = name, URL = url\<rparr>]) w"
    using load False by (simp add: AddSource_def)
  show ?thesis
  proof (cases "faults w OpWriteFile (SourcesFile c)")
    case True
    then have "snd (AddSource c name url w) = w"
      by (simp add: add SaveSources_def)
    then show ?thesis using load after d by simp
  next
    case False
    then have "sources' = map jsonSource (sources @ [\<lparr>Name = name, URL = url\<rparr>])"
      using LoadSources_SaveSources [OF LoadSources_Inr_readable [OF load] False] add after
      by simp
    then have "map Name sources' = map Name sources @ [name]"
      using valid by (simp add: jsonSource_def)
    then show ?thesis using d fresh by simp
  qed
qed

text \<open>
  C6 (as stated, refuted): a registry file that names the source \<^verbatim>\<open>work\<close> twice
  loads; adding \<^verbatim>\<open>work\<close> fails with the duplicate-name error and leaves the
  registry as it was, with two entries of that name, not one.
\<close>

theorem C6_AddSource_keeps_both_entries:
  "LoadSources exampleConfig worldTwiceWork = Inr [workSource, workMirror]
   \<and> AddSource exampleConfig ''work'' ''http://x'' worldTwiceWork
       = (Some (DuplicateNameError ''work''), worldTwiceWork)
   \<and> LoadSources exampleConfig (snd (AddSource exampleConfig ''work'' ''http://x'' worldTwiceWork))
       = Inr [workSource, workMirror]
   \<and> map Name [workSource, workMirror] = [''work'', ''work'']"
  by (simp add: AddSource_def LoadSources_def worldTwiceWork_def exampleWorld_def
        workSource_def workMirror_def)

text \<open>
  C6 (amended): for every registry that loads as a sequence of sources, and
  every name and url: (1) when a source with exactly that name is in the
  sequence, \<^verbatim>\<open>AddSource\<close> fails with the duplicate-name error and leaves the
  world as it was, so the registry loads as the same sequence; that sequence
  has exactly one entry of that name provided its names are distinct; (2)
  when no source has that name, \<^verbatim>\<open>AddSource\<close> is the save of the sequence with
  the new source appended at its end, and when the write does not fail it
  returns no error and the registry then loads as that longer sequence with
  each name and url as JSON keeps it (bytes that are not valid UTF-8 replaced
  by U+FFFD), which is the longer sequence itself when JSON keeps every one of
  its sources unchanged.
\<close>

theorem C6_AddSource_duplicate_or_append:
  assumes load: "LoadSources c w = Inr sources"
  shows "(list_ex (\<lambda>s. Name s = name) sources \<longrightarrow>
            AddSource c name url w = (Some (DuplicateNameError name), w)
            \<and> LoadSources c (snd (AddSource c name url w)) = Inr sources
            \<and> (distinct (map Name sources) \<longrightarrow>
                 length (filter (\<lambda>s. Name s = name) sources) = 1))
       \<and> (\<not> list_ex (\<lambda>s. Name s = name) sources \<longrightarrow>
            AddSource c name url w = SaveSources c (sources @ [\<lparr>Name = name, URL = url\<rparr>]) w
            \<and> (\<not> faults w OpWriteFile (SourcesFile c) \<longrightarrow>
                 fst (AddSource c name url w) = None
                 \<and> LoadSources c (snd (AddSource c name url w))
                     = Inr (map jsonSource (sources @ [\<lparr>Name = name, URL = url\<rparr>]))
                 \<and> ((\<forall>s\<in>set (sources @ [\<lparr>Name = name, URL = url\<rparr>]). jsonSource s = s) \<longrightarrow>
                      LoadSources c (snd (AddSource c name url w))
                        = Inr (sources @ [\<lparr>Name = name, URL = url\<rparr>]))))"
proof (intro conjI impI)
  assume ex: "list_ex (\<lambda>s. Name s = name) sources"
  show dup: "AddSource c name url w = (Some (DuplicateNameError name), w)"
    using load ex by (simp add: AddSource_def)
  show "LoadSources c (snd (AddSource c name url w)) = Inr sources"
    using dup load by simp
  assume d: "distinct (map Name sources)"
  from ex obtain s where s: "s \<in> set sources" "Name s = name"
    by (auto simp: list_ex_iff)
  from distinct_count_one [OF d s(1)] s(2)
  show "length (filter (\<lambda>s. Name s = name) sources) = 1"
    by simp
next
  assume nex: "\<not> list_ex (\<lambda>s. Name s = name) sources"
  show add: "AddSource c name url w = SaveSources c (sources @ [\<lparr>Name = name, URL = url\<rparr>]) w"
    using load nex by (simp add: AddSource_def)
  assume nf: "\<not> faults w OpWriteFile (SourcesFile c)"
  note saved = LoadSources_SaveSources [OF LoadSources_Inr_readable [OF load] nf]
  show "fst (AddSource c name url w) = None"
    using saved add by simp
  show ld: "LoadSources c (snd (AddSource c name url w))
      = Inr (map jsonSource (sources @ [\<lparr>Name = name, URL = url\<rparr>]))"
    using saved add by simp
  assume "\<forall>s\<in>set (sources @ [\<lparr>Name = name, URL = url\<rparr>]). jsonSource s = s"
  then have "map jsonSource (sources @ [\<lparr>Name = name, URL = url\<rparr>])
      = sources @ [\<lparr>Name = name, URL = url\<rparr>]"
    by (simp add: map_idI)
  then show "LoadSources c (snd (AddSource c name url w))
      = Inr (sources @ [\<lparr>Name = name, URL = url\<rparr>])"
    using ld by simp
qed

theorem C6_AddSource_witness:
  "LoadSources exampleConfig exampleWorld = Inr [workSource, homeSource]
   \<and> AddSource exampleConfig ''work'' ''http://x'' exampleWorld
       = (Some (DuplicateNameError ''work''), exampleWorld)
   \<and> LoadSources exampleConfig (snd (AddSource exampleConfig ''work'' ''http://x'' exampleWorld))
       = Inr [workSource, homeSource]
   \<and> length (filter (\<lambda>s. Name s = ''work'') [workSource, homeSource]) = 1
   \<and> fst (AddSource exampleConfig ''kids'' ''http://k'' exampleWorld) = None
   \<and> LoadSources exampleConfig (snd (AddSource exampleConfig ''kids'' ''http://k'' exampleWorld))
       = Inr [workSource, homeSource, \<lparr>Name = ''kids'', URL = ''http://k''\<rparr>]"
proof -
  have load: "LoadSources exampleConfig exampleWorld = Inr [workSource, homeSource]"
    by (simp add: LoadSources_def exampleWorld_def)
  have old: "list_ex (\<lambda>s. Name s = ''work'') [workSource, homeSource]"
    by (simp add: workSource_def)
  have new: "\<not> list_ex (\<lambda>s. Name s = ''kids'') [workSource, homeSource]"
    by (simp add: workSource_def homeSource_def)
  have d: "distinct (map Name [workSource, homeSource])"
    by (simp add: workSource_def homeSource_def)
  have nf: "\<not> faults exampleWorld OpWriteFile (SourcesFile exampleConfig)"
    by (simp add: exampleWorld_def)
  have keeps: "\<forall>s\<in>set ([workSource, homeSource] @ [\<lparr>Name = ''kids'', URL = ''http://k''\<rparr>]).
      jsonSource s = s"
    by (simp add: jsonSource_ascii workSource_def homeSource_def)
  note dup = C6_AddSource_duplicate_or_append
                [OF load, where name = "''work''" and url = "''http://x''"]
  note app = C6_AddSource_duplicate_or_append
                [OF load, where name = "''kids''" and url = "''http://k''"]
  have a1: "AddSource exampleConfig ''work'' ''http://x'' exampleWorld
       = (Some (DuplicateNameError ''work''), exampleWorld)"
    using dup old by blast
  have a2: "LoadSources exampleConfig (snd (AddSource exampleConfig ''work'' ''http://x'' exampleWorld))
       = Inr [workSource, homeSource]"
    using dup old by blast
  have a3: "length (filter (\<lambda>s. Name s = ''work'') [workSource, homeSource]) = 1"
    using dup old d by blast
  have b1: "fst (AddSource exampleConfig ''kids'' ''http://k'' exampleWorld) = None"
    using app new nf by blast
  have "LoadSources exampleConfig (snd (AddSource exampleConfig ''kids'' ''http://k'' exampleWorld))
       = Inr ([workSource, homeSource] @ [\<lparr>Name = ''kids'', URL = ''http://k''\<rparr>])"
    using app new nf keeps by blast
  then have b2: "LoadSources exampleConfig (snd (AddSource exampleConfig ''kids'' ''http://k'' exampleWorld))
       = Inr [workSource, homeSource, \<lparr>Name = ''kids'', URL = ''http://k''\<rparr>]"
    by simp
  show ?thesis
    by (intro conjI load a1 a2 a3 b1 b2)
qed

section \<open>Properties of the sync\<close>

subsection \<open>What each step leaves alone\<close>

lemma Remove_frame:
  "faults (snd (Remove dir n w)) = faults w \<and> stdout (snd (Remove dir n w)) = stdout w
   \<and> web (snd (Remove dir n w)) = web w
   \<and> (\<forall>d. d \<noteq> dir \<longrightarrow> dirs (snd (Remove dir n w)) d = dirs w d)"
  by (simp add: Remove_def split: option.splits)

lemma removeEntries_frame:
  "faults (removeEntries dir ns w) = faults w \<and> stdout (removeEntries dir ns w) = stdout w
   \<and> web (removeEntries dir ns w) = web w
   \<and> (\<forall>d. d \<noteq> dir \<longrightarrow> dirs (removeEntries dir ns w) d = dirs w d)"
  by (induction ns arbitrary: w) (simp_all add: Remove_frame)

lemma WriteFile_frame:
  "faults (snd (WriteFile dir n b w)) = faults w \<and> stdout (snd (WriteFile dir n b w)) = stdout w
   \<and> web (snd (WriteFile dir n b w)) = web w
   \<and> (\<forall>d. d \<noteq> dir \<longrightarrow> dirs (snd (WriteFile dir n b w)) d = dirs w d)"
  by (simp add: WriteFile_def split: option.splits)

lemma MkdirAll_frame:
  "faults (snd (MkdirAll dir w)) = faults w \<and> stdout (snd (MkdirAll dir w)) = stdout w
   \<and> web (snd (MkdirAll dir w)) = web w
   \<and> (\<forall>d. d \<noteq> dir \<longrightarrow> dirs (snd (MkdirAll dir w)) d = dirs w d)"
  by (simp add: MkdirAll_def split: option.splits)

lemma writeEvents_frame:
  "faults (snd (writeEvents h dir evs k w)) = faults w
   \<and> stdout (snd (writeEvents h dir evs k w)) = stdout w
   \<and> web (snd (writeEvents h dir evs k w)) = web w
   \<and> (\<forall>d. d \<noteq> dir \<longrightarrow> dirs (snd (writeEvents h dir evs k w)) d = dirs w d)"
proof (induction evs arbitrary: k w)
  case Nil
  show ?case by simp
next
  case (Cons ev evs)
  show ?case
  proof (cases "propsText h (cProps ev) ''UID''")
    case None
    then show ?thesis using Cons.IH by simp
  next
    case (Some uid)
    show ?thesis
    proof (cases "uid = [] \<or> Encode h (wrapEvent ev) = None")
      case True
      then show ?thesis using Some Cons.IH by auto
    next
      case False
      then obtain buf where buf: "Encode h (wrapEvent ev) = Some buf" and ne: "uid \<noteq> []"
        by auto
      obtain r w' where wf: "WriteFile dir (sanitizeFilename uid @ ''.ics'') buf w = (r, w')"
        by (cases "WriteFile dir (sanitizeFilename uid @ ''.ics'') buf w")
      have fr: "faults w' = faults w \<and> stdout w' = stdout w \<and> web w' = web w
                \<and> (\<forall>d. d \<noteq> dir \<longrightarrow> dirs w' d = dirs w d)"
        using WriteFile_frame [of dir "sanitizeFilename uid @ ''.ics''" buf w] wf by simp
      show ?thesis
        using Some buf ne wf fr Cons.IH [of _ w'] by (cases r) simp_all
    qed
  qed
qed

text \<open>The four outcomes of \<^verbatim>\<open>syncSource\<close>, one lemma each.\<close>

lemma syncSource_transport_fails:
  "web w (URL s) = Failed \<Longrightarrow> syncSource h c s w = (Some (FetchError Transport), w)"
  by (simp add: syncSource_def)

lemma syncSource_status_fails:
  "web w (URL s) = Response status body \<Longrightarrow> status \<noteq> 200 \<Longrightarrow>
   syncSource h c s w = (Some (FetchError (HTTPStatus status)), w)"
  by (simp add: syncSource_def)

lemma syncSource_decode_fails:
  "web w (URL s) = Response 200 body \<Longrightarrow> Decode h body = None \<Longrightarrow>
   syncSource h c s w = (Some ParseError, w)"
  by (simp add: syncSource_def)

lemma syncSource_decoded:
  assumes "web w (URL s) = Response 200 body" and "Decode h body = Some cal"
  shows "syncSource h c s w =
     (let dir = CalendarDir c (Name s) in
      case MkdirAll dir w of
        (Some err, w1) \<Rightarrow> (Some err, w1)
      | (None, w1) \<Rightarrow>
          let entries = (case ReadDir dir w1 of Inl err \<Rightarrow> [] | Inr es \<Rightarrow> es);
              w2 = removeEntries dir entries w1;
              (cnt, w3) = writeEvents h dir (Events cal) 0 w2
          in (None, printLine (Synced cnt) w3))"
  using assms by (simp add: syncSource_def)

lemma MkdirAll_error: "MkdirAll dir w = (Some e, w1) \<Longrightarrow> e = IOError OpMkdirAll dir \<and> w1 = w"
  by (auto simp: MkdirAll_def split: if_splits option.splits)

lemma syncSource_decoded_error:
  assumes "web w (URL s) = Response 200 body" and "Decode h body = Some cal"
    and "fst (syncSource h c s w) = Some e"
  shows "e = IOError OpMkdirAll (CalendarDir c (Name s))"
proof -
  obtain r w1 where mk: "MkdirAll (CalendarDir c (Name s)) w = (r, w1)"
    by (cases "MkdirAll (CalendarDir c (Name s)) w")
  show ?thesis
  proof (cases r)
    case None
    then have "fst (syncSource h c s w) = None"
      using mk by (simp add: syncSource_decoded [OF assms(1,2)] Let_def split: prod.splits)
    then show ?thesis using assms(3) by simp
  next
    case (Some e')
    then have "fst (syncSource h c s w) = Some e'"
      using mk by (simp add: syncSource_decoded [OF assms(1,2)])
    then show ?thesis using assms(3) mk Some MkdirAll_error by fastforce
  qed
qed

lemma syncSource_ok:
  assumes "web w (URL s) = Response 200 body" and "Decode h body = Some cal"
    and "\<not> faults w OpMkdirAll (CalendarDir c (Name s))"
  shows "fst (syncSource h c s w) = None"
proof (cases "fst (syncSource h c s w)")
  case None
  then show ?thesis .
next
  case (Some e)
  obtain r w1 where mk: "MkdirAll (CalendarDir c (Name s)) w = (r, w1)"
    by (cases "MkdirAll (CalendarDir c (Name s)) w")
  have "r = None"
    using mk assms(3) by (auto simp: MkdirAll_def split: option.splits)
  then have "fst (syncSource h c s w) = None"
    using mk by (simp add: syncSource_decoded [OF assms(1,2)] Let_def split: prod.splits)
  then show ?thesis .
qed

lemma syncSource_fetch_iff:
  "fst (syncSource h c s w) = Some (FetchError cause) \<longleftrightarrow>
      (web w (URL s) = Failed \<and> cause = Transport)
      \<or> (\<exists>status body. web w (URL s) = Response status body \<and> status \<noteq> 200
            \<and> cause = HTTPStatus status)"
proof (cases "web w (URL s)")
  case Failed
  then show ?thesis by (auto simp: syncSource_transport_fails)
next
  case (Response status body)
  show ?thesis
  proof (cases "status = 200")
    case False
    then show ?thesis using Response by (auto simp: syncSource_status_fails)
  next
    case True
    show ?thesis
    proof (cases "Decode h body")
      case None
      then show ?thesis using Response True by (simp add: syncSource_decode_fails)
    next
      case (Some cal)
      then show ?thesis
        using Response True syncSource_decoded_error [of w s body h cal c "FetchError cause"]
        by auto
    qed
  qed
qed

lemma syncSource_parse_iff:
  assumes "web w (URL s) = Response 200 body"
  shows "fst (syncSource h c s w) = Some ParseError \<longleftrightarrow> Decode h body = None"
proof (cases "Decode h body")
  case None
  then show ?thesis using assms by (simp add: syncSource_decode_fails)
next
  case (Some cal)
  then show ?thesis
    using assms syncSource_decoded_error [of w s body h cal c ParseError] by auto
qed

text \<open>
  \<^verbatim>\<open>syncSource\<close> leaves the feeds, the faults and every directory but the
  source's own alone and prints at most one line, a count.
\<close>

lemma syncSource_frame:
  "faults (snd (syncSource h c s w)) = faults w \<and> web (snd (syncSource h c s w)) = web w
   \<and> (\<forall>d. d \<noteq> CalendarDir c (Name s) \<longrightarrow> dirs (snd (syncSource h c s w)) d = dirs w d)
   \<and> (\<exists>k. stdout (snd (syncSource h c s w)) = stdout w
          \<or> stdout (snd (syncSource h c s w)) = stdout w @ [Synced k])"
proof (cases "web w (URL s)")
  case Failed
  then show ?thesis by (simp add: syncSource_transport_fails)
next
  case (Response status body)
  show ?thesis
  proof (cases "status \<noteq> 200 \<or> Decode h body = None")
    case True
    then show ?thesis
      using Response
      by (cases "status = 200") (auto simp: syncSource_status_fails syncSource_decode_fails)
  next
    case False
    then obtain cal where cal: "Decode h body = Some cal" and st: "status = 200"
      by auto
    define dir where "dir = CalendarDir c (Name s)"
    obtain r w1 where mk: "MkdirAll dir w = (r, w1)"
      by (cases "MkdirAll dir w")
    have f1: "faults w1 = faults w \<and> stdout w1 = stdout w \<and> web w1 = web w
              \<and> (\<forall>d. d \<noteq> dir \<longrightarrow> dirs w1 d = dirs w d)"
      using MkdirAll_frame [of dir w] mk by simp
    show ?thesis
    proof (cases r)
      case (Some e)
      then show ?thesis
        using Response cal st mk f1 by (auto simp: syncSource_def dir_def)
    next
      case None
      define entries where "entries = (case ReadDir dir w1 of Inl err \<Rightarrow> [] | Inr es \<Rightarrow> es)"
      define w2 where "w2 = removeEntries dir entries w1"
      obtain k w3 where we: "writeEvents h dir (Events cal) 0 w2 = (k, w3)"
        by (cases "writeEvents h dir (Events cal) 0 w2")
      have f2: "faults w2 = faults w1 \<and> stdout w2 = stdout w1 \<and> web w2 = web w1
                \<and> (\<forall>d. d \<noteq> dir \<longrightarrow> dirs w2 d = dirs w1 d)"
        unfolding w2_def by (rule removeEntries_frame)
      have f3: "faults w3 = faults w2 \<and> stdout w3 = stdout w2 \<and> web w3 = web w2
                \<and> (\<forall>d. d \<noteq> dir \<longrightarrow> dirs w3 d = dirs w2 d)"
        using writeEvents_frame [of h dir "Events cal" 0 w2] we by simp
      have res: "syncSource h c s w = (None, printLine (Synced k) w3)"
        using Response cal st mk None we
        by (simp add: syncSource_def dir_def [symmetric] entries_def [symmetric]
                      w2_def [symmetric])
      show ?thesis
        using res f1 f2 f3 by (auto simp: printLine_def dir_def)
    qed
  qed
qed

lemma syncingNames_append: "syncingNames (a @ b) = syncingNames a @ syncingNames b"
  by (simp add: syncingNames_def)

lemma syncLoop_frame:
  "faults (syncLoop h c srcs w) = faults w \<and> web (syncLoop h c srcs w) = web w
   \<and> syncingNames (stdout (syncLoop h c srcs w)) = syncingNames (stdout w) @ map Name srcs"
proof (induction srcs arbitrary: w)
  case Nil
  show ?case by simp
next
  case (Cons s srcs)
  define w0 where "w0 = printLine (Syncing (Name s)) w"
  obtain r w1 where ss: "syncSource h c s w0 = (r, w1)"
    by (cases "syncSource h c s w0")
  have f0: "faults w0 = faults w" "web w0 = web w"
     "syncingNames (stdout w0) = syncingNames (stdout w) @ [Name s]"
    by (simp_all add: w0_def printLine_def syncingNames_def)
  have f1: "faults w1 = faults w0" "web w1 = web w0"
     "syncingNames (stdout w1) = syncingNames (stdout w0)"
    using syncSource_frame [of h c s w0] ss by (auto simp: syncingNames_def)
  show ?case
  proof (cases r)
    case None
    then have "syncLoop h c (s # srcs) w = syncLoop h c srcs w1"
      using ss by (simp add: w0_def)
    then show ?thesis using Cons.IH [of w1] f0 f1 by simp
  next
    case (Some e)
    define w2 where "w2 = printLine (ErrorLine e) w1"
    have f2: "faults w2 = faults w1" "web w2 = web w1"
     "syncingNames (stdout w2) = syncingNames (stdout w1)"
      by (simp_all add: w2_def printLine_def syncingNames_def)
    have "syncLoop h c (s # srcs) w = syncLoop h c srcs w2"
      using ss Some by (simp add: w0_def w2_def)
    then show ?thesis using Cons.IH [of w2] f0 f1 f2 by simp
  qed
qed

subsection \<open>What the sync of a source depends on\<close>

lemma writeEvents_skip:
  "propsText h (cProps ev) ''UID'' = None \<or> propsText h (cProps ev) ''UID'' = Some []
     \<or> Encode h (wrapEvent ev) = None \<Longrightarrow>
   writeEvents h dir (ev # evs) k w = writeEvents h dir evs k w"
  by (auto split: option.splits)

lemma writeEvents_write:
  "propsText h (cProps ev) ''UID'' = Some uid \<Longrightarrow> uid \<noteq> [] \<Longrightarrow>
   Encode h (wrapEvent ev) = Some buf \<Longrightarrow>
   writeEvents h dir (ev # evs) k w
     = writeEvents h dir evs
         (if fst (WriteFile dir (sanitizeFilename uid @ ''.ics'') buf w) = None then k + 1 else k)
         (snd (WriteFile dir (sanitizeFilename uid @ ''.ics'') buf w))"
  by (cases "WriteFile dir (sanitizeFilename uid @ ''.ics'') buf w") (auto split: option.splits)

lemma syncSource_mkdir_fails:
  assumes "web w (URL s) = Response 200 body" and "Decode h body = Some cal"
    and "fst (MkdirAll (CalendarDir c (Name s)) w) = Some e"
  shows "syncSource h c s w = (Some e, snd (MkdirAll (CalendarDir c (Name s)) w))"
  using assms(3)
  by (cases "MkdirAll (CalendarDir c (Name s)) w") (simp add: syncSource_decoded [OF assms(1,2)])

lemma syncSource_runs:
  assumes "web w (URL s) = Response 200 body" and "Decode h body = Some cal"
    and "fst (MkdirAll (CalendarDir c (Name s)) w) = None"
  shows "syncSource h c s w =
     (None,
      printLine
        (Synced (fst (writeEvents h (CalendarDir c (Name s)) (Events cal) 0
           (removeEntries (CalendarDir c (Name s))
              (case ReadDir (CalendarDir c (Name s)) (snd (MkdirAll (CalendarDir c (Name s)) w)) of
                 Inl err \<Rightarrow> [] | Inr es \<Rightarrow> es)
              (snd (MkdirAll (CalendarDir c (Name s)) w))))))
        (snd (writeEvents h (CalendarDir c (Name s)) (Events cal) 0
           (removeEntries (CalendarDir c (Name s))
              (case ReadDir (CalendarDir c (Name s)) (snd (MkdirAll (CalendarDir c (Name s)) w)) of
                 Inl err \<Rightarrow> [] | Inr es \<Rightarrow> es)
              (snd (MkdirAll (CalendarDir c (Name s)) w))))))"
  using assms(3)
  by (cases "MkdirAll (CalendarDir c (Name s)) w")
     (simp add: syncSource_decoded [OF assms(1,2)] Let_def split: prod.splits)

text \<open>
  Each step gives the same result, and leaves the same view, on two worlds
  that show the same feeds, the same faults and the same directory.
\<close>

lemma sameView_refl: "sameView dir w w"
  by (simp add: sameView_def)

lemma sameView_printLine: "sameView dir w1 w2 \<Longrightarrow> sameView dir (printLine l w1) (printLine m w2)"
  by (simp add: sameView_def printLine_def)

lemma sameView_printLine_left: "sameView dir (printLine l w) w"
  by (simp add: sameView_def printLine_def)

lemma MkdirAll_view:
  "sameView dir w1 w2 \<Longrightarrow>
   fst (MkdirAll dir w1) = fst (MkdirAll dir w2)
   \<and> sameView dir (snd (MkdirAll dir w1)) (snd (MkdirAll dir w2))"
  by (auto simp: sameView_def MkdirAll_def split: option.splits)

lemma ReadDir_view: "sameView dir w1 w2 \<Longrightarrow> ReadDir dir w1 = ReadDir dir w2"
  by (simp add: sameView_def ReadDir_def)

lemma Remove_view:
  "sameView dir w1 w2 \<Longrightarrow> sameView dir (snd (Remove dir n w1)) (snd (Remove dir n w2))"
  by (auto simp: sameView_def Remove_def split: option.splits)

lemma removeEntries_view:
  "sameView dir w1 w2 \<Longrightarrow> sameView dir (removeEntries dir ns w1) (removeEntries dir ns w2)"
  by (induction ns arbitrary: w1 w2) (simp_all add: Remove_view)

lemma WriteFile_view:
  "sameView dir w1 w2 \<Longrightarrow>
   fst (WriteFile dir n b w1) = fst (WriteFile dir n b w2)
   \<and> sameView dir (snd (WriteFile dir n b w1)) (snd (WriteFile dir n b w2))"
  by (auto simp: sameView_def WriteFile_def split: option.splits)

lemma writeEvents_view:
  "sameView dir w1 w2 \<Longrightarrow>
   fst (writeEvents h dir evs k w1) = fst (writeEvents h dir evs k w2)
   \<and> sameView dir (snd (writeEvents h dir evs k w1)) (snd (writeEvents h dir evs k w2))"
proof (induction evs arbitrary: k w1 w2)
  case Nil
  then show ?case by simp
next
  case (Cons ev evs)
  show ?case
  proof (cases "propsText h (cProps ev) ''UID'' = None \<or> propsText h (cProps ev) ''UID'' = Some []
                  \<or> Encode h (wrapEvent ev) = None")
    case True
    then show ?thesis
      using Cons.IH [OF Cons.prems] by (simp only: writeEvents_skip)
  next
    case False
    then obtain uid buf where u: "propsText h (cProps ev) ''UID'' = Some uid" "uid \<noteq> []"
        "Encode h (wrapEvent ev) = Some buf"
      by auto
    define n where "n = sanitizeFilename uid @ ''.ics''"
    note wf = WriteFile_view [OF Cons.prems, of n buf]
    show ?thesis
      using Cons.IH [OF conjunct2 [OF wf]] conjunct1 [OF wf]
      by (simp only: writeEvents_write [OF u] n_def)
  qed
qed

lemma syncSource_view:
  assumes sv: "sameView (CalendarDir c (Name s)) w1 w2"
  shows "fst (syncSource h c s w1) = fst (syncSource h c s w2)
     \<and> sameView (CalendarDir c (Name s)) (snd (syncSource h c s w1)) (snd (syncSource h c s w2))"
proof -
  define dir where "dir = CalendarDir c (Name s)"
  have web: "web w2 (URL s) = web w1 (URL s)"
    using sv by (simp add: sameView_def)
  show ?thesis
  proof (cases "web w1 (URL s)")
    case Failed
    then show ?thesis
      using web sv by (simp add: syncSource_transport_fails)
  next
    case (Response status body)
    show ?thesis
    proof (cases "status = 200")
      case False
      then show ?thesis
        using Response web sv by (simp add: syncSource_status_fails)
    next
      case True
      show ?thesis
      proof (cases "Decode h body")
        case None
        then show ?thesis
          using Response True web sv by (simp add: syncSource_decode_fails)
      next
        case (Some cal)
        have r1: "web w1 (URL s) = Response 200 body" and r2: "web w2 (URL s) = Response 200 body"
          using Response True web by simp_all
        note mk = MkdirAll_view [OF sv]
        show ?thesis
        proof (cases "fst (MkdirAll (CalendarDir c (Name s)) w1)")
          case (Some e)
          then have "fst (MkdirAll (CalendarDir c (Name s)) w2) = Some e"
            using mk by simp
          then show ?thesis
            using Some mk
            by (simp add: syncSource_mkdir_fails [OF r1 \<open>Decode h body = Some cal\<close>]
                  syncSource_mkdir_fails [OF r2 \<open>Decode h body = Some cal\<close>])
        next
          case None
          then have n2: "fst (MkdirAll (CalendarDir c (Name s)) w2) = None"
            using mk by simp
          note rd = ReadDir_view [OF conjunct2 [OF mk]]
          note rm = removeEntries_view [OF conjunct2 [OF mk],
              of "case ReadDir (CalendarDir c (Name s)) (snd (MkdirAll (CalendarDir c (Name s)) w1)) of
                    Inl err \<Rightarrow> [] | Inr es \<Rightarrow> es"]
          note we = writeEvents_view [OF rm, of h "Events cal" 0]
          show ?thesis
            using we rd
            by (simp add: syncSource_runs [OF r1 \<open>Decode h body = Some cal\<close> None]
                  syncSource_runs [OF r2 \<open>Decode h body = Some cal\<close> n2]
                  sameView_printLine)
        qed
      qed
    qed
  qed
qed

subsection \<open>The loop over the sources\<close>

lemma CalendarDir_inject: "CalendarDir c n1 = CalendarDir c n2 \<longleftrightarrow> n1 = n2"
  by (simp add: CalendarDir_def Join_def)

lemma syncLoop_Cons: "syncLoop h c (s # sources) w = syncLoop h c sources (batchStep h c w s)"
  by (cases "syncSource h c s (printLine (Syncing (Name s)) w)")
     (auto simp: batchStep_def split: option.splits)

lemma syncLoop_foldl: "syncLoop h c sources w = foldl (batchStep h c) w sources"
  by (induction sources arbitrary: w) (simp_all add: syncLoop_Cons del: syncLoop.simps(2))

lemma batchStep_frame:
  "faults (batchStep h c w s) = faults w \<and> web (batchStep h c w s) = web w
   \<and> (\<forall>d. d \<noteq> CalendarDir c (Name s) \<longrightarrow> dirs (batchStep h c w s) d = dirs w d)"
proof -
  define w0 where "w0 = printLine (Syncing (Name s)) w"
  define r where "r = syncSource h c s w0"
  have f0: "faults w0 = faults w" "web w0 = web w" "dirs w0 = dirs w"
    by (simp_all add: w0_def printLine_def)
  have f1: "faults (snd r) = faults w0" "web (snd r) = web w0"
    "\<forall>d. d \<noteq> CalendarDir c (Name s) \<longrightarrow> dirs (snd r) d = dirs w0 d"
    using syncSource_frame [of h c s w0] by (simp_all add: r_def)
  have step: "batchStep h c w s
      = (case fst r of Some err \<Rightarrow> printLine (ErrorLine err) (snd r) | None \<Rightarrow> snd r)"
    unfolding batchStep_def Let_def r_def w0_def by (rule refl)
  show ?thesis
    unfolding step using f0 f1 by (cases "fst r") (simp_all add: printLine_def)
qed

lemma batchStep_own:
  "dirs (batchStep h c w s) (CalendarDir c (Name s))
     = dirs (snd (syncSource h c s w)) (CalendarDir c (Name s))"
proof -
  define w0 where "w0 = printLine (Syncing (Name s)) w"
  define r where "r = syncSource h c s w0"
  have "sameView (CalendarDir c (Name s)) w0 w"
    unfolding w0_def by (rule sameView_printLine_left)
  from syncSource_view [OF this, of h]
  have own: "dirs (snd r) (CalendarDir c (Name s))
      = dirs (snd (syncSource h c s w)) (CalendarDir c (Name s))"
    by (simp add: sameView_def r_def)
  have step: "batchStep h c w s
      = (case fst r of Some err \<Rightarrow> printLine (ErrorLine err) (snd r) | None \<Rightarrow> snd r)"
    unfolding batchStep_def Let_def r_def w0_def by (rule refl)
  show ?thesis
    unfolding step using own by (cases "fst r") (simp_all add: printLine_def)
qed

text \<open>The syncs of sources with other names leave a source's directory alone.\<close>

lemma syncLoop_other:
  "\<forall>s\<in>set sources. Name s \<noteq> n \<Longrightarrow>
   dirs (syncLoop h c sources w) (CalendarDir c n) = dirs w (CalendarDir c n)"
proof (induction sources arbitrary: w)
  case Nil
  show ?case by simp
next
  case (Cons x xs)
  have "CalendarDir c n \<noteq> CalendarDir c (Name x)"
    using Cons.prems by (auto simp: CalendarDir_inject)
  then have "dirs (batchStep h c w x) (CalendarDir c n) = dirs w (CalendarDir c n)"
    using batchStep_frame [of h c w x] by simp
  then show ?case
    using Cons.IH [of "batchStep h c w x"] Cons.prems
    by (simp add: syncLoop_Cons del: syncLoop.simps(2))
qed

text \<open>
  In a batch over sources with distinct names, the directory of each source
  ends as the sync of that source alone leaves it: neither the failure nor the
  success of another source changes what is stored for this one.
\<close>

lemma syncLoop_store:
  "distinct (map Name sources) \<Longrightarrow> s \<in> set sources \<Longrightarrow>
   dirs (syncLoop h c sources w) (CalendarDir c (Name s))
     = dirs (snd (syncSource h c s w)) (CalendarDir c (Name s))"
proof (induction sources arbitrary: w)
  case Nil
  then show ?case by simp
next
  case (Cons x xs)
  define w' where "w' = batchStep h c w x"
  have loop: "syncLoop h c (x # xs) w = syncLoop h c xs w'"
    by (simp add: syncLoop_Cons w'_def del: syncLoop.simps(2))
  have apart: "\<forall>y\<in>set xs. Name y \<noteq> Name x"
    using Cons.prems(1) by (auto simp: image_iff)
  show ?case
  proof (cases "s = x")
    case True
    have "dirs (syncLoop h c xs w') (CalendarDir c (Name x)) = dirs w' (CalendarDir c (Name x))"
      using apart by (rule syncLoop_other)
    then show ?thesis
      using True loop by (simp add: w'_def batchStep_own)
  next
    case False
    then have mem: "s \<in> set xs" and ne: "Name s \<noteq> Name x"
      using Cons.prems apart by auto
    have d: "distinct (map Name xs)"
      using Cons.prems(1) by simp
    have "CalendarDir c (Name s) \<noteq> CalendarDir c (Name x)"
      using ne by (simp add: CalendarDir_inject)
    then have sv: "sameView (CalendarDir c (Name s)) w' w"
      using batchStep_frame [of h c w x] by (simp add: sameView_def w'_def)
    have "dirs (syncLoop h c xs w') (CalendarDir c (Name s))
        = dirs (snd (syncSource h c s w')) (CalendarDir c (Name s))"
      using d mem by (rule Cons.IH)
    also have "\<dots> = dirs (snd (syncSource h c s w)) (CalendarDir c (Name s))"
      using syncSource_view [OF sv, of h] by (simp add: sameView_def)
    finally show ?thesis
      using loop by simp
  qed
qed

subsection \<open>Fetching\<close>

text \<open>
  C3 (as stated, refuted): a response with status 203, a 2xx status, whose
  body decodes, is not accepted: \<^verbatim>\<open>syncSource\<close> fails with the fetch error
  "HTTP 203".
\<close>

theorem C3_syncSource_rejects_203:
  "web world203 (URL homeSource) = Response 203 (exampleFeed [])
   \<and> Decode exampleHost (exampleFeed []) = Some (exampleFeed [])
   \<and> fst (syncSource exampleHost exampleConfig homeSource world203)
       = Some (FetchError (HTTPStatus 203))"
  by (simp add: syncSource_def world203_def status203_def exampleHost_def exampleFeed_def)

text \<open>
  C3 (amended): \<^verbatim>\<open>syncSource\<close> accepts exactly the responses with status 200:
  it fails with a fetch error exactly when the transport fails or the status
  is not 200; on status 200 it goes on to decode the body, failing with the
  parse error exactly when the body does not decode. A fetch failure leaves
  the world as it was, and the loop of \<^verbatim>\<open>SyncAll\<close> prints the error and goes on
  with the remaining sources.
\<close>

theorem C3_syncSource_fetch_error:
  "(fst (syncSource h c s w) = Some (FetchError cause) \<longleftrightarrow>
      (web w (URL s) = Failed \<and> cause = Transport)
      \<or> (\<exists>status body. web w (URL s) = Response status body \<and> status \<noteq> 200
            \<and> cause = HTTPStatus status))
   \<and> (\<forall>body. web w (URL s) = Response 200 body \<longrightarrow>
         (fst (syncSource h c s w) = Some ParseError \<longleftrightarrow> Decode h body = None))
   \<and> (fst (syncSource h c s w) = Some (FetchError cause) \<longrightarrow>
         snd (syncSource h c s w) = w
         \<and> syncLoop h c (s # rest) w
             = syncLoop h c rest
                 (printLine (ErrorLine (FetchError cause)) (printLine (Syncing (Name s)) w)))"
proof (intro conjI allI impI)
  show "fst (syncSource h c s w) = Some (FetchError cause) \<longleftrightarrow>
      (web w (URL s) = Failed \<and> cause = Transport)
      \<or> (\<exists>status body. web w (URL s) = Response status body \<and> status \<noteq> 200
            \<and> cause = HTTPStatus status)"
    by (rule syncSource_fetch_iff)
next
  fix body
  assume "web w (URL s) = Response 200 body"
  then show "fst (syncSource h c s w) = Some ParseError \<longleftrightarrow> Decode h body = None"
    by (rule syncSource_parse_iff)
next
  assume f: "fst (syncSource h c s w) = Some (FetchError cause)"
  then consider (t) "web w (URL s) = Failed" "cause = Transport"
    | (st) status body where "web w (URL s) = Response status body" "status \<noteq> 200"
        "cause = HTTPStatus status"
    using syncSource_fetch_iff [of h c s w cause] by blast
  then have all: "\<forall>w'. web w' = web w \<longrightarrow> syncSource h c s w' = (Some (FetchError cause), w')"
  proof cases
    case t
    then show ?thesis by (simp add: syncSource_transport_fails)
  next
    case st
    then show ?thesis by (simp add: syncSource_status_fails)
  qed
  show "snd (syncSource h c s w) = w"
    using all by simp
  have "web (printLine (Syncing (Name s)) w) = web w"
    by (simp add: printLine_def)
  then have "syncSource h c s (printLine (Syncing (Name s)) w)
      = (Some (FetchError cause), printLine (Syncing (Name s)) w)"
    using all by blast
  then show "syncLoop h c (s # rest) w
             = syncLoop h c rest
                 (printLine (ErrorLine (FetchError cause)) (printLine (Syncing (Name s)) w))"
    by simp
qed

theorem C3_syncSource_fetch_error_witness:
  "web exampleWorld (URL workSource) = Failed
   \<and> fst (syncSource exampleHost exampleConfig workSource exampleWorld)
       = Some (FetchError Transport)
   \<and> snd (syncSource exampleHost exampleConfig workSource exampleWorld) = exampleWorld
   \<and> syncLoop exampleHost exampleConfig [workSource, homeSource] exampleWorld
       = syncLoop exampleHost exampleConfig [homeSource]
           (printLine (ErrorLine (FetchError Transport))
              (printLine (Syncing (Name workSource)) exampleWorld))
   \<and> web exampleWorld (URL homeSource)
       = Response 200 (exampleFeed [exampleEvent ''a'' [] ''20240101''])
   \<and> fst (syncSource exampleHost exampleConfig homeSource exampleWorld) \<noteq> Some ParseError"
proof -
  have w1: "web exampleWorld (URL workSource) = Failed"
    by (simp add: exampleWorld_def workSource_def)
  have w2: "web exampleWorld (URL homeSource)
       = Response 200 (exampleFeed [exampleEvent ''a'' [] ''20240101''])"
    by (simp add: exampleWorld_def homeSource_def)
  have dec: "Decode exampleHost (exampleFeed [exampleEvent ''a'' [] ''20240101'']) \<noteq> None"
    by (simp add: exampleHost_def exampleFeed_def)
  note work = C3_syncSource_fetch_error
      [where h = exampleHost and c = exampleConfig and s = workSource and w = exampleWorld
         and cause = Transport and rest = "[homeSource]"]
  note home = C3_syncSource_fetch_error
      [where h = exampleHost and c = exampleConfig and s = homeSource and w = exampleWorld
         and cause = Transport and rest = "[]"]
  have a: "fst (syncSource exampleHost exampleConfig workSource exampleWorld)
       = Some (FetchError Transport)"
    using work w1 by blast
  have b: "snd (syncSource exampleHost exampleConfig workSource exampleWorld) = exampleWorld"
    using work a by blast
  have l: "syncLoop exampleHost exampleConfig [workSource, homeSource] exampleWorld
       = syncLoop exampleHost exampleConfig [homeSource]
           (printLine (ErrorLine (FetchError Transport))
              (printLine (Syncing (Name workSource)) exampleWorld))"
    using work a by blast
  have p: "fst (syncSource exampleHost exampleConfig homeSource exampleWorld) \<noteq> Some ParseError"
    using home w2 dec by auto
  show ?thesis
    by (intro conjI w1 a b l w2 p)
qed

subsection \<open>Failure before the store is touched\<close>

text \<open>
  C9: if \<^verbatim>\<open>syncSource\<close> fails with a fetch error (transport failure or
  rejected status) or with the parse error (the body does not decode), the
  world after the call is the world before it: in particular every
  directory, so every stored record, is as it was. The clearing loop is only
  reached after the fetch and the decode have succeeded.
\<close>

theorem C9_syncSource_early_failure_keeps_store:
  assumes "syncSource h c s w = (Some e, w')"
    and "(\<exists>cause. e = FetchError cause) \<or> e = ParseError"
  shows "w' = w \<and> dirs w' = dirs w"
proof -
  have "w' = w"
  proof (cases "web w (URL s)")
    case Failed
    then show ?thesis using assms(1) by (simp add: syncSource_transport_fails)
  next
    case (Response status body)
    show ?thesis
    proof (cases "status = 200")
      case False
      then show ?thesis using Response assms(1) by (simp add: syncSource_status_fails)
    next
      case True
      show ?thesis
      proof (cases "Decode h body")
        case None
        then show ?thesis using Response True assms(1) by (simp add: syncSource_decode_fails)
      next
        case (Some cal)
        have "e = IOError OpMkdirAll (CalendarDir c (Name s))"
          using syncSource_decoded_error [of w s body h cal c e] Response True Some assms(1)
          by simp
        then show ?thesis using assms(2) by auto
      qed
    qed
  qed
  then show ?thesis by simp
qed

theorem C9_syncSource_early_failure_witness:
  "syncSource exampleHost exampleConfig workSource exampleWorld
     = (Some (FetchError Transport), exampleWorld)
   \<and> hasRecord exampleHost ''/cfg/events/work'' ''e1''
       (snd (syncSource exampleHost exampleConfig workSource exampleWorld))
   \<and> syncSource exampleHost exampleConfig workSource worldNotCalendar
     = (Some ParseError, worldNotCalendar)
   \<and> hasRecord exampleHost ''/cfg/events/work'' ''e1''
       (snd (syncSource exampleHost exampleConfig workSource worldNotCalendar))"
proof -
  have f1: "fst (syncSource exampleHost exampleConfig workSource exampleWorld)
      = Some (FetchError Transport)"
    by (simp add: syncSource_def exampleWorld_def workSource_def)
  have f2: "fst (syncSource exampleHost exampleConfig workSource worldNotCalendar)
      = Some ParseError"
    by (simp add: syncSource_def worldNotCalendar_def notCalendar_def exampleHost_def)
  have e1: "syncSource exampleHost exampleConfig workSource exampleWorld
      = (Some (FetchError Transport),
         snd (syncSource exampleHost exampleConfig workSource exampleWorld))"
    using f1 by (metis prod.collapse)
  have e2: "syncSource exampleHost exampleConfig workSource worldNotCalendar
      = (Some ParseError, snd (syncSource exampleHost exampleConfig workSource worldNotCalendar))"
    using f2 by (metis prod.collapse)
  have k1: "snd (syncSource exampleHost exampleConfig workSource exampleWorld) = exampleWorld"
    using C9_syncSource_early_failure_keeps_store [OF e1] by blast
  have k2: "snd (syncSource exampleHost exampleConfig workSource worldNotCalendar)
      = worldNotCalendar"
    using C9_syncSource_early_failure_keeps_store [OF e2] by blast
  have rec: "hasRecord exampleHost ''/cfg/events/work'' ''e1'' exampleWorld"
    by (simp add: hasRecord_def recordUid_def exampleWorld_def exampleHost_def wrapEvent_def
          Events_def exampleEvent_def textOrEmpty_def propsText_def propsGet_def textProp_def)
  have rec2: "hasRecord exampleHost ''/cfg/events/work'' ''e1'' worldNotCalendar"
    using rec by (simp add: hasRecord_def worldNotCalendar_def)
  show ?thesis
    using e1 e2 k1 k2 rec rec2 by simp
qed

subsection \<open>Full refresh\<close>

lemma Remove_dirs:
  assumes nf: "\<not> faults w OpRemove (Join dir n)" and d: "dirs w dir = Some es"
  shows "dirs (snd (Remove dir n w)) dir = Some (filter (\<lambda>e. fst e \<noteq> n) es)"
proof (cases "n \<in> fst ` set es")
  case True
  then show ?thesis using nf d by (simp add: Remove_def)
next
  case False
  then have "filter (\<lambda>e. fst e \<noteq> n) es = es"
    by (auto simp: filter_id_conv)
  then show ?thesis using nf d False by (simp add: Remove_def)
qed

text \<open>When no removal fails, the clearing loop removes every listed name.\<close>

lemma removeEntries_dirs:
  "\<forall>n. \<not> faults w OpRemove (Join dir n) \<Longrightarrow> dirs w dir = Some es \<Longrightarrow>
   dirs (removeEntries dir ns w) dir = Some (filter (\<lambda>e. fst e \<notin> set ns) es)"
proof (induction ns arbitrary: w es)
  case Nil
  then show ?case by simp
next
  case (Cons n ns)
  have d1: "dirs (snd (Remove dir n w)) dir = Some (filter (\<lambda>e. fst e \<noteq> n) es)"
    using Cons.prems by (simp add: Remove_dirs)
  have f1: "\<forall>m. \<not> faults (snd (Remove dir n w)) OpRemove (Join dir m)"
    using Cons.prems(1) by (simp add: Remove_frame)
  have "dirs (removeEntries dir ns (snd (Remove dir n w))) dir
        = Some (filter (\<lambda>e. fst e \<notin> set ns) (filter (\<lambda>e. fst e \<noteq> n) es))"
    using Cons.IH [OF f1 d1] .
  moreover have "filter (\<lambda>e. fst e \<notin> set ns) (filter (\<lambda>e. fst e \<noteq> n) es)
        = filter (\<lambda>e. fst e \<notin> set (n # ns)) es"
    by (auto intro: filter_cong)
  ultimately show ?case by simp
qed

lemma WriteFile_dirs:
  "dirs w dir = Some es \<Longrightarrow>
   \<exists>es'. dirs (snd (WriteFile dir n b w)) dir = Some es' \<and> set es' \<subseteq> insert (n, b) (set es)"
  by (auto simp: WriteFile_def)

text \<open>The writing loop only adds entries written for the feed's events.\<close>

lemma writeEvents_dirs:
  "dirs w dir = Some es \<Longrightarrow>
   \<exists>es'. dirs (snd (writeEvents h dir evs k w)) dir = Some es'
        \<and> set es' \<subseteq> set es \<union> {e. writtenBy h evs e}"
proof (induction evs arbitrary: k w es)
  case Nil
  then show ?case by simp
next
  case (Cons ev evs)
  have mono: "{e. writtenBy h evs e} \<subseteq> {e. writtenBy h (ev # evs) e}"
    by (auto simp: writtenBy_def)
  have skip: "writeEvents h dir (ev # evs) k w = writeEvents h dir evs k w \<Longrightarrow> ?case"
  proof -
    assume eq: "writeEvents h dir (ev # evs) k w = writeEvents h dir evs k w"
    obtain es' where "dirs (snd (writeEvents h dir evs k w)) dir = Some es'"
      "set es' \<subseteq> set es \<union> {e. writtenBy h evs e}"
      using Cons.IH [OF Cons.prems, of k] by blast
    then show ?thesis
      using eq mono by (metis (no_types, lifting) Un_mono order_refl subset_trans)
  qed
  show ?case
  proof (cases "propsText h (cProps ev) ''UID''")
    case None
    then show ?thesis by (intro skip) simp
  next
    case (Some uid)
    show ?thesis
    proof (cases "uid = [] \<or> Encode h (wrapEvent ev) = None")
      case True
      then show ?thesis using Some by (intro skip) auto
    next
      case False
      then obtain buf where buf: "Encode h (wrapEvent ev) = Some buf" and ne: "uid \<noteq> []"
        by auto
      define n where "n = sanitizeFilename uid @ ''.ics''"
      obtain r w' where wf: "WriteFile dir n buf w = (r, w')"
        by (cases "WriteFile dir n buf w")
      obtain es1 where es1: "dirs w' dir = Some es1" "set es1 \<subseteq> insert (n, buf) (set es)"
        using WriteFile_dirs [OF Cons.prems, of n buf] wf by auto
      have wb: "writtenBy h (ev # evs) (n, buf)"
        using Some buf ne by (auto simp: writtenBy_def n_def)
      have "\<exists>k'. writeEvents h dir (ev # evs) k w = writeEvents h dir evs k' w'"
        using Some buf ne wf by (cases r) (auto simp: n_def)
      then obtain k' where k': "writeEvents h dir (ev # evs) k w = writeEvents h dir evs k' w'" ..
      obtain es' where es': "dirs (snd (writeEvents h dir evs k' w')) dir = Some es'"
          "set es' \<subseteq> set es1 \<union> {e. writtenBy h evs e}"
        using Cons.IH [OF es1(1), of k'] by auto
      have "set es' \<subseteq> set es \<union> {e. writtenBy h (ev # evs) e}"
        using es'(2) es1(2) wb mono by blast
      then show ?thesis using es'(1) k' by simp
    qed
  qed
qed

lemma MkdirAll_ok:
  "MkdirAll dir w = (None, w1) \<Longrightarrow> faults w1 = faults w \<and> (\<exists>es. dirs w1 dir = Some es)"
  by (auto simp: MkdirAll_def split: if_splits option.splits)

lemma filter_listed_names_empty:
  "filter (\<lambda>e. fst e \<notin> set (sort (remdups (map fst es)))) es = []"
  by (auto simp: filter_empty_conv)

text \<open>
  After a sync that returned no error, when listing the directory and
  removing its entries did not fail, every entry of the source's directory
  was written by this sync for an event of this feed.
\<close>

lemma syncSource_full_refresh:
  assumes ok: "syncSource h c s w = (None, w')"
    and feed: "web w (URL s) = Response 200 body" "Decode h body = Some cal"
    and nf: "\<not> faults w OpReadDir (CalendarDir c (Name s))"
            "\<forall>n. \<not> faults w OpRemove (Join (CalendarDir c (Name s)) n)"
  shows "\<exists>es. dirs w' (CalendarDir c (Name s)) = Some es
            \<and> (\<forall>e\<in>set es. writtenBy h (Events cal) e)"
proof -
  define dir where "dir = CalendarDir c (Name s)"
  obtain r w1 where mk: "MkdirAll dir w = (r, w1)"
    by (cases "MkdirAll dir w")
  have r: "r = None"
    using ok feed mk by (cases r) (simp_all add: syncSource_def dir_def)
  obtain es1 where f1: "faults w1 = faults w" and d1: "dirs w1 dir = Some es1"
    using MkdirAll_ok [of dir w w1] mk r by auto
  define entries where "entries = (case ReadDir dir w1 of Inl err \<Rightarrow> [] | Inr es \<Rightarrow> es)"
  have en: "entries = sort (remdups (map fst es1))"
    using nf(1) f1 d1 by (simp add: entries_def ReadDir_def dir_def)
  define w2 where "w2 = removeEntries dir entries w1"
  have d2: "dirs w2 dir = Some []"
    using removeEntries_dirs [of w1 dir es1 entries] nf(2) f1 d1
    by (simp add: w2_def en filter_listed_names_empty dir_def)
  obtain k w3 where we: "writeEvents h dir (Events cal) 0 w2 = (k, w3)"
    by (cases "writeEvents h dir (Events cal) 0 w2")
  have res: "syncSource h c s w = (None, printLine (Synced k) w3)"
    using feed mk r we
    by (simp add: syncSource_def dir_def [symmetric] entries_def [symmetric] w2_def [symmetric])
  obtain es3 where d3: "dirs w3 dir = Some es3"
      "set es3 \<subseteq> set [] \<union> {e. writtenBy h (Events cal) e}"
    using writeEvents_dirs [OF d2, of h "Events cal" 0] we by auto
  have "dirs w' dir = Some es3"
    using res ok d3(1) by (auto simp: printLine_def)
  then show ?thesis using d3(2) by (auto simp: dir_def)
qed

lemma Events_wrapEvent: "cName ev = ''VEVENT'' \<Longrightarrow> Events (wrapEvent ev) = [ev]"
  by (simp add: Events_def wrapEvent_def)

lemma writtenBy_recordUid:
  assumes rb: "readsBackUids h (Events cal)" and wb: "writtenBy h (Events cal) e"
  shows "\<exists>uid. recordUid h (snd e) = Some uid \<and> feedHasUid h cal uid"
proof -
  from wb obtain ev uid where ev: "ev \<in> set (Events cal)"
    and uid: "propsText h (cProps ev) ''UID'' = Some uid"
    and enc: "Encode h (wrapEvent ev) = Some (snd e)"
    by (auto simp: writtenBy_def)
  have "recordUid h (snd e) = Some uid"
    using rb ev uid enc unfolding readsBackUids_def by blast
  moreover have "feedHasUid h cal uid"
    using ev uid by (auto simp: feedHasUid_def list_ex_iff)
  ultimately show ?thesis by blast
qed

text \<open>The records of the example host read back the uid of their event.\<close>

lemma example_reads_back: "readsBackUids exampleHost (Events cal)"
  unfolding readsBackUids_def
proof (intro ballI allI impI)
  fix event uid data
  assume ev: "event \<in> set (Events cal)"
    and a: "propsText exampleHost (cProps event) ''UID'' = Some uid
            \<and> Encode exampleHost (wrapEvent event) = Some data"
  have n: "cName event = ''VEVENT''"
    using ev by (simp add: Events_def)
  have d: "data = wrapEvent event"
    using a by (simp add: exampleHost_def split: if_splits)
  have "Decode exampleHost (wrapEvent event) = Some (wrapEvent event)"
    by (simp add: exampleHost_def wrapEvent_def)
  then show "recordUid exampleHost data = Some uid"
    using a n d by (simp add: recordUid_def Events_wrapEvent textOrEmpty_def)
qed

lemma example_encodes:
  "Encode exampleHost (wrapEvent (exampleEvent uid params v)) = Some (wrapEvent (exampleEvent uid params v))"
  by (simp add: exampleHost_def exampleEncodes_def exactlyOne_def wrapEvent_def exampleEvent_def
        textProp_def)

text \<open>The example world after the first sync of the home source.\<close>

lemma example_home_dir: "CalendarDir exampleConfig (Name homeSource) = ''/cfg/events/home''"
  by (simp add: CalendarDir_def EventsDir_def Join_def exampleConfig_def homeSource_def)

lemma example_feeds:
  "feedHasUid exampleHost (exampleFeed [exampleEvent ''a'' [] ''20240101'']) ''a''
   \<and> \<not> feedHasUid exampleHost (exampleFeed [exampleEvent ''b'' [] ''20240102'']) ''a''
   \<and> Decode exampleHost (exampleFeed [exampleEvent ''a'' [] ''20240101''])
       = Some (exampleFeed [exampleEvent ''a'' [] ''20240101''])
   \<and> Decode exampleHost (exampleFeed [exampleEvent ''b'' [] ''20240102''])
       = Some (exampleFeed [exampleEvent ''b'' [] ''20240102''])"
  by (simp add: feedHasUid_def exampleHost_def exampleFeed_def Events_def exampleEvent_def
        propsText_def propsGet_def textProp_def)

lemma example_first_sync:
  "fst (syncSource exampleHost exampleConfig homeSource exampleWorld) = None
   \<and> dirs (snd (syncSource exampleHost exampleConfig homeSource exampleWorld)) ''/cfg/events/home''
       = Some [(''a.ics'', wrapEvent (exampleEvent ''a'' [] ''20240101''))]"
proof -
  have web: "web exampleWorld (URL homeSource)
      = Response 200 (exampleFeed [exampleEvent ''a'' [] ''20240101''])"
    by (simp add: exampleWorld_def homeSource_def)
  note dec = conjunct1 [OF conjunct2 [OF conjunct2 [OF example_feeds]]]
  have evs: "Events (exampleFeed [exampleEvent ''a'' [] ''20240101''])
      = [exampleEvent ''a'' [] ''20240101'']"
    by (simp add: Events_def exampleFeed_def exampleEvent_def)
  have uid: "propsText exampleHost (cProps (exampleEvent ''a'' [] ''20240101'')) ''UID'' = Some ''a''"
    by (simp add: propsText_def propsGet_def exampleEvent_def textProp_def exampleHost_def)
  note enc = example_encodes [of "''a''" "[]" "''20240101''"]
  have nm: "sanitizeFilename ''a'' @ ''.ics'' = ''a.ics''"
    by (simp add: sanitizeFilename_def replaceByte_def hostile_def)
  have "syncSource exampleHost exampleConfig homeSource exampleWorld
      = (None, printLine (Synced 1)
           (exampleWorld\<lparr>dirs := (dirs exampleWorld)
              (''/cfg/events/home'' \<mapsto> [(''a.ics'', wrapEvent (exampleEvent ''a'' [] ''20240101''))])\<rparr>))"
    unfolding syncSource_decoded [OF web dec] example_home_dir evs
    by (simp add: Let_def MkdirAll_def ReadDir_def WriteFile_def uid enc nm exampleWorld_def)
  then show ?thesis
    by (simp add: printLine_def)
qed

lemma example_record_a:
  "recordUid exampleHost (wrapEvent (exampleEvent ''a'' [] ''20240101'')) = Some ''a''"
  by (simp add: recordUid_def exampleHost_def wrapEvent_def Events_def exampleEvent_def
        textOrEmpty_def propsText_def propsGet_def textProp_def)

text \<open>
  C2 (as stated, refuted): the first sync of the home source succeeds on a
  feed that contains uid \<^verbatim>\<open>a\<close> and stores its record; the directory then becomes
  read-only and the feed changes to one without \<^verbatim>\<open>a\<close>; the second sync drops the
  errors of its removals and of its writes and returns no error, and the record
  for \<^verbatim>\<open>a\<close> is still in the store.
\<close>

theorem C2_stale_record_survives_sync:
  "feedHasUid exampleHost (exampleFeed [exampleEvent ''a'' [] ''20240101'']) ''a''
   \<and> fst (syncSource exampleHost exampleConfig homeSource exampleWorld) = None
   \<and> \<not> feedHasUid exampleHost (exampleFeed [exampleEvent ''b'' [] ''20240102'']) ''a''
   \<and> fst (syncSource exampleHost exampleConfig homeSource
            ((snd (syncSource exampleHost exampleConfig homeSource exampleWorld))
               \<lparr>web := secondFeed, faults := readOnly\<rparr>)) = None
   \<and> hasRecord exampleHost (CalendarDir exampleConfig (Name homeSource)) ''a''
        (snd (syncSource exampleHost exampleConfig homeSource
            ((snd (syncSource exampleHost exampleConfig homeSource exampleWorld))
               \<lparr>web := secondFeed, faults := readOnly\<rparr>)))"
proof -
  define w1 where "w1 = snd (syncSource exampleHost exampleConfig homeSource exampleWorld)"
  define w1' where "w1' = w1\<lparr>web := secondFeed, faults := readOnly\<rparr>"
  have d1: "dirs w1' ''/cfg/events/home''
      = Some [(''a.ics'', wrapEvent (exampleEvent ''a'' [] ''20240101''))]"
    using example_first_sync by (simp add: w1'_def w1_def)
  have web: "web w1' (URL homeSource) = Response 200 (exampleFeed [exampleEvent ''b'' [] ''20240102''])"
    by (simp add: w1'_def secondFeed_def)
  have fl: "faults w1' = readOnly"
    by (simp add: w1'_def)
  note dec = conjunct2 [OF conjunct2 [OF conjunct2 [OF example_feeds]]]
  have evs: "Events (exampleFeed [exampleEvent ''b'' [] ''20240102''])
      = [exampleEvent ''b'' [] ''20240102'']"
    by (simp add: Events_def exampleFeed_def exampleEvent_def)
  have uid: "propsText exampleHost (cProps (exampleEvent ''b'' [] ''20240102'')) ''UID'' = Some ''b''"
    by (simp add: propsText_def propsGet_def exampleEvent_def textProp_def exampleHost_def)
  note enc = example_encodes [of "''b''" "[]" "''20240102''"]
  have run: "syncSource exampleHost exampleConfig homeSource w1' = (None, printLine (Synced 0) w1')"
    unfolding syncSource_decoded [OF web dec] example_home_dir evs
    using d1 fl
    by (simp add: Let_def MkdirAll_def ReadDir_def Remove_def WriteFile_def readOnly_def uid enc)
  have rec: "hasRecord exampleHost ''/cfg/events/home'' ''a'' (printLine (Synced 0) w1')"
    using d1 by (simp add: hasRecord_def printLine_def example_record_a)
  show ?thesis
    using example_feeds example_first_sync run rec
    by (simp add: example_home_dir w1'_def [symmetric] w1_def [symmetric])
qed

text \<open>
  C2 (amended): for every source whose first sync returned no error on a feed
  that contains uid u and whose second sync returned no error on a feed that
  does not contain u (a uid the feed does not contain is one no event of the
  feed reads as its UID), if at the second sync listing the source's directory
  and removing its entries do not fail, and the records of the second feed's
  events read back their uid (whenever the library encodes one of these
  events, wrapped as the sync wraps it, the uid read from the record it
  produced is the uid the event was stored under), then after the second sync
  the source's directory has no record for u.
\<close>

theorem C2_syncSource_full_refresh:
  assumes rb: "readsBackUids h (Events cal2)"
    and first: "web w0 (URL s) = Response 200 body1" "Decode h body1 = Some cal1"
               "feedHasUid h cal1 u" "syncSource h c s w0 = (None, w1)"
    and second: "web2 (URL s) = Response 200 body2" "Decode h body2 = Some cal2"
               "\<not> feedHasUid h cal2 u" "syncSource h c s (w1\<lparr>web := web2\<rparr>) = (None, w2)"
    and nf: "\<not> faults w1 OpReadDir (CalendarDir c (Name s))"
            "\<forall>n. \<not> faults w1 OpRemove (Join (CalendarDir c (Name s)) n)"
  shows "\<not> hasRecord h (CalendarDir c (Name s)) u w2"
proof -
  obtain es where es: "dirs w2 (CalendarDir c (Name s)) = Some es"
      "\<forall>e\<in>set es. writtenBy h (Events cal2) e"
    using syncSource_full_refresh [OF second(4), of body2 cal2] second(1,2) nf by auto
  have "\<forall>e\<in>set es. recordUid h (snd e) \<noteq> Some u"
  proof
    fix e
    assume "e \<in> set es"
    then have "writtenBy h (Events cal2) e"
      using es(2) by simp
    from writtenBy_recordUid [OF rb this] second(3)
    show "recordUid h (snd e) \<noteq> Some u"
      by auto
  qed
  then show ?thesis
    using es(1) by (simp add: hasRecord_def list_ex_iff)
qed

theorem C2_syncSource_full_refresh_witness:
  "readsBackUids exampleHost (Events (exampleFeed [exampleEvent ''b'' [] ''20240102'']))
   \<and> feedHasUid exampleHost (exampleFeed [exampleEvent ''a'' [] ''20240101'']) ''a''
   \<and> fst (syncSource exampleHost exampleConfig homeSource exampleWorld) = None
   \<and> hasRecord exampleHost (CalendarDir exampleConfig (Name homeSource)) ''a''
        (snd (syncSource exampleHost exampleConfig homeSource exampleWorld))
   \<and> \<not> feedHasUid exampleHost (exampleFeed [exampleEvent ''b'' [] ''20240102'']) ''a''
   \<and> fst (syncSource exampleHost exampleConfig homeSource
            ((snd (syncSource exampleHost exampleConfig homeSource exampleWorld))
               \<lparr>web := secondFeed\<rparr>)) = None
   \<and> \<not> hasRecord exampleHost (CalendarDir exampleConfig (Name homeSource)) ''a''
        (snd (syncSource exampleHost exampleConfig homeSource
            ((snd (syncSource exampleHost exampleConfig homeSource exampleWorld))
               \<lparr>web := secondFeed\<rparr>)))"
proof -
  define w1 where "w1 = snd (syncSource exampleHost exampleConfig homeSource exampleWorld)"
  define w2 where "w2 = snd (syncSource exampleHost exampleConfig homeSource (w1\<lparr>web := secondFeed\<rparr>))"
  note rb = example_reads_back [of "exampleFeed [exampleEvent ''b'' [] ''20240102'']"]
  have web1: "web exampleWorld (URL homeSource)
      = Response 200 (exampleFeed [exampleEvent ''a'' [] ''20240101''])"
    by (simp add: exampleWorld_def homeSource_def)
  have web2: "secondFeed (URL homeSource)
      = Response 200 (exampleFeed [exampleEvent ''b'' [] ''20240102''])"
    by (simp add: secondFeed_def)
  note dec1 = conjunct1 [OF conjunct2 [OF conjunct2 [OF example_feeds]]]
  note dec2 = conjunct2 [OF conjunct2 [OF conjunct2 [OF example_feeds]]]
  note has1 = conjunct1 [OF example_feeds]
  note not2 = conjunct1 [OF conjunct2 [OF example_feeds]]
  have ok1: "fst (syncSource exampleHost exampleConfig homeSource exampleWorld) = None"
    using example_first_sync by simp
  then have s1: "syncSource exampleHost exampleConfig homeSource exampleWorld = (None, w1)"
    unfolding w1_def by (metis prod.collapse)
  have fl: "faults w1 = (\<lambda>op p. False)"
    using syncSource_frame [of exampleHost exampleConfig homeSource exampleWorld]
    by (simp add: w1_def exampleWorld_def)
  have ok2: "fst (syncSource exampleHost exampleConfig homeSource (w1\<lparr>web := secondFeed\<rparr>)) = None"
    by (rule syncSource_ok [where body = "exampleFeed [exampleEvent ''b'' [] ''20240102'']"
                              and cal = "exampleFeed [exampleEvent ''b'' [] ''20240102'']"])
       (simp_all add: web2 dec2 fl)
  then have s2: "syncSource exampleHost exampleConfig homeSource (w1\<lparr>web := secondFeed\<rparr>) = (None, w2)"
    unfolding w2_def by (metis prod.collapse)
  have nf1: "\<not> faults w1 OpReadDir (CalendarDir exampleConfig (Name homeSource))"
    by (simp add: fl)
  have nf2: "\<forall>n. \<not> faults w1 OpRemove (Join (CalendarDir exampleConfig (Name homeSource)) n)"
    by (simp add: fl)
  have before: "hasRecord exampleHost (CalendarDir exampleConfig (Name homeSource)) ''a'' w1"
    using example_first_sync
    by (simp add: hasRecord_def w1_def example_home_dir example_record_a)
  have after: "\<not> hasRecord exampleHost (CalendarDir exampleConfig (Name homeSource)) ''a'' w2"
    using C2_syncSource_full_refresh [OF rb web1 dec1 has1 s1 web2 dec2 not2 s2 nf1 nf2] .
  show ?thesis
    using rb has1 ok1 before not2 ok2 after
    by (simp add: w1_def w2_def)
qed

subsection \<open>The batch\<close>

text \<open>
  C7: \<^verbatim>\<open>SyncAll\<close> fails with the no-sources error exactly when the registry
  loads as the empty sequence. When it loads as a non-empty sequence,
  \<^verbatim>\<open>SyncAll\<close> returns no error, whatever the outcome of each source's sync, and
  the world it leaves is the one reached by taking the sources in registry
  order and, for each, printing its name, syncing it on the world as the
  sources before it left it and printing its error if it failed; the
  "syncing ..." lines name every configured source in registry order. When
  moreover the names are distinct single path segments, the directory of every
  configured source ends as the sync of that source alone, run on the world
  before the batch, leaves it: a source is synced, with the same result,
  whether or not the sources before it failed.
\<close>

theorem C7_SyncAll_batch:
  "(fst (SyncAll h c w) = Some NoSourcesError \<longleftrightarrow> LoadSources c w = Inr [])
   \<and> (\<forall>sources. LoadSources c w = Inr sources \<and> sources \<noteq> [] \<longrightarrow>
         fst (SyncAll h c w) = None
         \<and> snd (SyncAll h c w) = foldl (batchStep h c) w sources
         \<and> syncingNames (stdout (snd (SyncAll h c w)))
             = syncingNames (stdout w) @ map Name sources
         \<and> (distinct (map Name sources) \<and> list_all plainName (map Name sources) \<longrightarrow>
              (\<forall>s\<in>set sources.
                 dirs (snd (SyncAll h c w)) (CalendarDir c (Name s))
                   = dirs (snd (syncSource h c s w)) (CalendarDir c (Name s)))))"
proof (intro conjI allI impI ballI)
  show "fst (SyncAll h c w) = Some NoSourcesError \<longleftrightarrow> LoadSources c w = Inr []"
    by (auto simp: SyncAll_def LoadSources_def split: sum.splits if_splits srcfile.splits)
next
  fix sources
  assume a: "LoadSources c w = Inr sources \<and> sources \<noteq> []"
  then have sa: "SyncAll h c w = (None, syncLoop h c sources w)"
    by (simp add: SyncAll_def)
  show "fst (SyncAll h c w) = None"
    by (simp add: sa)
  show "snd (SyncAll h c w) = foldl (batchStep h c) w sources"
    by (simp add: sa syncLoop_foldl)
  show "syncingNames (stdout (snd (SyncAll h c w))) = syncingNames (stdout w) @ map Name sources"
    using sa syncLoop_frame [of h c sources w] by simp
  fix s
  assume "distinct (map Name sources) \<and> list_all plainName (map Name sources)"
    and "s \<in> set sources"
  then show "dirs (snd (SyncAll h c w)) (CalendarDir c (Name s))
                   = dirs (snd (syncSource h c s w)) (CalendarDir c (Name s))"
    by (simp add: sa syncLoop_store)
qed

text \<open>The output of the batch on the example world.\<close>

lemma example_batch_out:
  "stdout (foldl (batchStep exampleHost exampleConfig) exampleWorld [workSource, homeSource])
     = [Syncing ''work'', ErrorLine (FetchError Transport), Syncing ''home'', Synced 1]"
proof -
  define w1 where "w1 = batchStep exampleHost exampleConfig exampleWorld workSource"
  define w0 where "w0 = printLine (Syncing (Name homeSource)) w1"
  have w1: "w1 = exampleWorld\<lparr>stdout := [Syncing ''work'', ErrorLine (FetchError Transport)]\<rparr>"
    by (simp add: w1_def batchStep_def syncSource_def printLine_def exampleWorld_def workSource_def)
  have w0: "w0 = exampleWorld
      \<lparr>stdout := [Syncing ''work'', ErrorLine (FetchError Transport), Syncing ''home'']\<rparr>"
    by (simp add: w0_def w1 printLine_def homeSource_def)
  have web: "web w0 (URL homeSource)
      = Response 200 (exampleFeed [exampleEvent ''a'' [] ''20240101''])"
    by (simp add: w0 exampleWorld_def homeSource_def)
  note dec = conjunct1 [OF conjunct2 [OF conjunct2 [OF example_feeds]]]
  have evs: "Events (exampleFeed [exampleEvent ''a'' [] ''20240101''])
      = [exampleEvent ''a'' [] ''20240101'']"
    by (simp add: Events_def exampleFeed_def exampleEvent_def)
  have uid: "propsText exampleHost (cProps (exampleEvent ''a'' [] ''20240101'')) ''UID'' = Some ''a''"
    by (simp add: propsText_def propsGet_def exampleEvent_def textProp_def exampleHost_def)
  note enc = example_encodes [of "''a''" "[]" "''20240101''"]
  have nm: "sanitizeFilename ''a'' @ ''.ics'' = ''a.ics''"
    by (simp add: sanitizeFilename_def replaceByte_def hostile_def)
  have run: "syncSource exampleHost exampleConfig homeSource w0
      = (None, printLine (Synced 1)
           (w0\<lparr>dirs := (dirs w0)
              (''/cfg/events/home'' \<mapsto> [(''a.ics'', wrapEvent (exampleEvent ''a'' [] ''20240101''))])\<rparr>))"
    unfolding syncSource_decoded [OF web dec] example_home_dir evs
    by (simp add: Let_def MkdirAll_def ReadDir_def WriteFile_def uid enc nm w0 exampleWorld_def)
  have "stdout (batchStep exampleHost exampleConfig w1 homeSource)
      = [Syncing ''work'', ErrorLine (FetchError Transport), Syncing ''home'', Synced 1]"
    unfolding batchStep_def w0_def [symmetric] run
    by (simp add: printLine_def w0)
  then show ?thesis
    by (simp add: w1_def)
qed

theorem C7_SyncAll_batch_witness:
  "LoadSources exampleConfig exampleWorld = Inr [workSource, homeSource]
   \<and> fst (syncSource exampleHost exampleConfig workSource exampleWorld)
       = Some (FetchError Transport)
   \<and> fst (SyncAll exampleHost exampleConfig exampleWorld) = None
   \<and> stdout (snd (SyncAll exampleHost exampleConfig exampleWorld))
       = [Syncing ''work'', ErrorLine (FetchError Transport), Syncing ''home'', Synced 1]
   \<and> syncingNames (stdout (snd (SyncAll exampleHost exampleConfig exampleWorld)))
       = [''work'', ''home'']
   \<and> dirs (snd (SyncAll exampleHost exampleConfig exampleWorld)) ''/cfg/events/home''
       = Some [(''a.ics'', wrapEvent (exampleEvent ''a'' [] ''20240101''))]
   \<and> dirs (snd (SyncAll exampleHost exampleConfig exampleWorld)) ''/cfg/events/work''
       = dirs exampleWorld ''/cfg/events/work''
   \<and> LoadSources exampleConfig (exampleWorld\<lparr>sourcesFile := NoFile\<rparr>) = Inr []
   \<and> fst (SyncAll exampleHost exampleConfig (exampleWorld\<lparr>sourcesFile := NoFile\<rparr>))
       = Some NoSourcesError"
proof -
  define final where "final = snd (SyncAll exampleHost exampleConfig exampleWorld)"
  have load: "LoadSources exampleConfig exampleWorld = Inr [workSource, homeSource]"
    by (simp add: LoadSources_def exampleWorld_def)
  have ne: "[workSource, homeSource] \<noteq> []"
    by simp
  have work: "syncSource exampleHost exampleConfig workSource exampleWorld
      = (Some (FetchError Transport), exampleWorld)"
    by (simp add: syncSource_def exampleWorld_def workSource_def)
  have none: "LoadSources exampleConfig (exampleWorld\<lparr>sourcesFile := NoFile\<rparr>) = Inr []"
    by (simp add: LoadSources_def exampleWorld_def)
  have out0: "syncingNames (stdout exampleWorld) = []"
    by (simp add: syncingNames_def exampleWorld_def)
  have names: "distinct (map Name [workSource, homeSource])
      \<and> list_all plainName (map Name [workSource, homeSource])"
    by (simp add: workSource_def homeSource_def plainName_def)
  have workdir: "CalendarDir exampleConfig (Name workSource) = ''/cfg/events/work''"
    by (simp add: CalendarDir_def EventsDir_def Join_def exampleConfig_def workSource_def)
  note full = C7_SyncAll_batch [where h = exampleHost and c = exampleConfig and w = exampleWorld]
  note empty = C7_SyncAll_batch
      [where h = exampleHost and c = exampleConfig and w = "exampleWorld\<lparr>sourcesFile := NoFile\<rparr>"]
  have a: "fst (SyncAll exampleHost exampleConfig exampleWorld) = None"
    using full load ne by blast
  have "final = foldl (batchStep exampleHost exampleConfig) exampleWorld [workSource, homeSource]"
    unfolding final_def using full load ne by blast
  then have b: "stdout final
      = [Syncing ''work'', ErrorLine (FetchError Transport), Syncing ''home'', Synced 1]"
    by (simp only: example_batch_out)
  have "syncingNames (stdout final)
       = syncingNames (stdout exampleWorld) @ map Name [workSource, homeSource]"
    unfolding final_def using full load ne by blast
  then have c: "syncingNames (stdout final) = [''work'', ''home'']"
    by (simp add: out0 workSource_def homeSource_def)
  have each: "\<forall>s\<in>set [workSource, homeSource].
      dirs final (CalendarDir exampleConfig (Name s))
        = dirs (snd (syncSource exampleHost exampleConfig s exampleWorld))
            (CalendarDir exampleConfig (Name s))"
    unfolding final_def using full load ne names by blast
  have d: "dirs final ''/cfg/events/home''
      = Some [(''a.ics'', wrapEvent (exampleEvent ''a'' [] ''20240101''))]"
    using each example_first_sync by (simp add: example_home_dir)
  have e: "dirs final ''/cfg/events/work'' = dirs exampleWorld ''/cfg/events/work''"
    using each work by (simp add: workdir)
  have f: "fst (SyncAll exampleHost exampleConfig (exampleWorld\<lparr>sourcesFile := NoFile\<rparr>))
       = Some NoSourcesError"
    using empty none by blast
  show ?thesis
    using load work a b c d e none f by (simp add: final_def)
qed

section \<open>Properties of the listing\<close>

subsection \<open>Sorting\<close>

lemma mset_sinkLeft: "mset (sinkLeft lt x front) = add_mset x (mset front)"
  by (induction front) simp_all

lemma mset_insertionSort: "mset (insertionSort lt front xs) = mset front + mset xs"
  by (induction xs arbitrary: front) (simp_all add: mset_sinkLeft)

lemma mset_sortSlice: "mset (sortSlice lt xs) = mset xs"
  by (simp add: sortSlice_def mset_insertionSort)

lemma set_sortSlice: "set (sortSlice lt xs) = set xs"
  using mset_sortSlice [of lt xs] by (metis set_mset_mset)

lemma set_sinkLeft: "set (sinkLeft lt x front) = insert x (set front)"
  using mset_sinkLeft [of lt x front] by (metis set_mset_mset set_mset_add_mset_insert)

text \<open>
  The order needs two facts of the comparison: it is asymmetric, and "not
  less" is transitive. The part already sorted is held from right to left, so
  no element of it is less than a later one.
\<close>

lemma sorted_sinkLeft:
  assumes asym: "\<And>a b. lt a b \<Longrightarrow> \<not> lt b a"
    and negtrans: "\<And>a b c. \<not> lt a b \<Longrightarrow> \<not> lt b c \<Longrightarrow> \<not> lt a c"
  shows "sorted_wrt (\<lambda>a b. \<not> lt a b) front \<Longrightarrow>
         sorted_wrt (\<lambda>a b. \<not> lt a b) (sinkLeft lt x front)"
proof (induction front)
  case Nil
  show ?case by simp
next
  case (Cons y front)
  show ?case
  proof (cases "lt x y")
    case True
    then have "\<not> lt y x" by (rule asym)
    then show ?thesis using True Cons by (auto simp: set_sinkLeft)
  next
    case False
    then have "\<forall>z\<in>set front. \<not> lt x z"
      using Cons.prems negtrans by auto
    then show ?thesis using False Cons.prems by simp
  qed
qed

lemma sorted_insertionSort:
  assumes asym: "\<And>a b. lt a b \<Longrightarrow> \<not> lt b a"
    and negtrans: "\<And>a b c. \<not> lt a b \<Longrightarrow> \<not> lt b c \<Longrightarrow> \<not> lt a c"
  shows "sorted_wrt (\<lambda>a b. \<not> lt a b) front \<Longrightarrow>
         sorted_wrt (\<lambda>a b. \<not> lt b a) (insertionSort lt front xs)"
proof (induction xs arbitrary: front)
  case Nil
  then show ?case by (simp add: sorted_wrt_rev)
next
  case (Cons x xs)
  show ?case
    using Cons.IH [OF sorted_sinkLeft [OF asym negtrans Cons.prems]] by simp
qed

lemma Before_asym: "Before t u \<Longrightarrow> \<not> Before u t"
  by (auto simp: Before_def)

lemma Before_negtrans: "\<not> Before t u \<Longrightarrow> \<not> Before u v \<Longrightarrow> \<not> Before t v"
  by (auto simp: Before_def)

lemma not_Before_iff: "\<not> Before u t \<longleftrightarrow> Before t u \<or> Equal t u"
  by (auto simp: Before_def Equal_def)

lemma sorted_sortSlice_Start:
  "sorted_wrt (\<lambda>a b. \<not> Before (Start b) (Start a))
     (sortSlice (\<lambda>a b. Before (Start a) (Start b)) xs)"
  unfolding sortSlice_def
  by (rule sorted_insertionSort [where lt = "\<lambda>a b. Before (Start a) (Start b)"])
     (auto dest: Before_asym Before_negtrans)

subsection \<open>Filtering and gathering\<close>

lemma set_rangeFilter:
  "set (rangeFilter from to es) =
   {e \<in> set es. \<not> (\<not> IsZero from \<and> Before (Start e) from)
               \<and> \<not> (\<not> IsZero to \<and> After (Start e) to)}"
  by (induction es) auto

lemma rangeFilter_unbounded: "IsZero from \<Longrightarrow> IsZero to \<Longrightarrow> rangeFilter from to es = es"
  by (induction es) auto

lemma readEntries_mem:
  "entry \<in> set entries \<Longrightarrow> HasSuffix entry ''.ics'' \<Longrightarrow>
   readEvent h dir entry calName w = Inr e \<Longrightarrow>
   e \<in> set (readEntries h dir calName entries w)"
  by (induction entries) (auto split: sum.splits)

lemma gatherEvents_mem:
  "s \<in> set sources \<Longrightarrow> loadCalendarEvents h c (Name s) w = Inr evs \<Longrightarrow> e \<in> set evs \<Longrightarrow>
   e \<in> set (gatherEvents h c sources w)"
  by (induction sources) (auto split: sum.splits)

lemma stored_event_gathered:
  assumes "s \<in> set sources" and "ReadDir (CalendarDir c (Name s)) w = Inr entries"
    and "entry \<in> set entries" and "HasSuffix entry ''.ics''"
    and "readEvent h (CalendarDir c (Name s)) entry (Name s) w = Inr e"
  shows "e \<in> set (gatherEvents h c sources w)"
proof -
  have l: "loadCalendarEvents h c (Name s) w
      = Inr (readEntries h (CalendarDir c (Name s)) (Name s) entries w)"
    using assms(2) by (simp add: loadCalendarEvents_def)
  have m: "e \<in> set (readEntries h (CalendarDir c (Name s)) (Name s) entries w)"
    using assms(3-5) by (rule readEntries_mem)
  show ?thesis
    using assms(1) l m by (rule gatherEvents_mem)
qed

lemma ListEvents_loaded:
  "LoadSources c w = Inr sources \<Longrightarrow>
   ListEvents h c from to w
     = Inr (sortSlice (\<lambda>a b. Before (Start a) (Start b))
              (rangeFilter from to (gatherEvents h c sources w)))"
  by (simp add: ListEvents_def)

lemma example_listing:
  "LoadSources exampleConfig exampleWorld = Inr [workSource, homeSource]
   \<and> map UID (gatherEvents exampleHost exampleConfig [workSource, homeSource] exampleWorld)
       = [''e1'', ''e2'']
   \<and> map Start (gatherEvents exampleHost exampleConfig [workSource, homeSource] exampleWorld)
       = [\<lparr>t_sec = 63846057600, t_nsec = 0, t_loc = UTC\<rparr>,
          \<lparr>t_sec = 63846104400, t_nsec = 0, t_loc = Zone ''America/New_York''\<rparr>]"
  by (simp add: LoadSources_def loadCalendarEvents_def ReadDir_def CalendarDir_def EventsDir_def
        Join_def HasSuffix_def readEvent_def ReadFile_def Events_def wrapEvent_def textProp_def
        parseEventTime_def propsGet_def valueIsDate_def resolveLoc_def textOrEmpty_def
        propsText_def example_reader_defs example_defs)

subsection \<open>The range filter\<close>

text \<open>
  C1: whenever the registry loads, \<^verbatim>\<open>ListEvents\<close> returns a list r such that:
  when from is not the zero instant, no event of r starts strictly before
  from; when to is not the zero instant, no event of r starts strictly after
  to; r holds exactly the gathered events that pass the bound on each side
  that is not the zero instant (a zero bound excludes nothing on its side);
  and when both are the zero instant, r holds exactly the events gathered
  from the stores (same events, same multiplicities), so that every record
  that is listed in a configured source's readable directory under a name
  ending in \<^verbatim>\<open>.ics\<close> and that \<^verbatim>\<open>readEvent\<close> decodes is in r.
\<close>

theorem C1_ListEvents_range_filter:
  assumes load: "LoadSources c w = Inr sources"
  shows "\<exists>r. ListEvents h c from to w = Inr r
     \<and> (\<not> IsZero from \<longrightarrow> (\<forall>e\<in>set r. \<not> Before (Start e) from))
     \<and> (\<not> IsZero to \<longrightarrow> (\<forall>e\<in>set r. \<not> After (Start e) to))
     \<and> set r = {e \<in> set (gatherEvents h c sources w).
                    (IsZero from \<or> \<not> Before (Start e) from)
                    \<and> (IsZero to \<or> \<not> After (Start e) to)}
     \<and> (IsZero from \<and> IsZero to \<longrightarrow>
          mset r = mset (gatherEvents h c sources w)
          \<and> (\<forall>s\<in>set sources. \<forall>entries.
                ReadDir (CalendarDir c (Name s)) w = Inr entries \<longrightarrow>
                (\<forall>entry\<in>set entries. \<forall>e.
                    HasSuffix entry ''.ics''
                    \<and> readEvent h (CalendarDir c (Name s)) entry (Name s) w = Inr e
                    \<longrightarrow> e \<in> set r)))"
proof -
  define r where
    "r = sortSlice (\<lambda>a b. Before (Start a) (Start b))
           (rangeFilter from to (gatherEvents h c sources w))"
  have le: "ListEvents h c from to w = Inr r"
    using load by (simp add: ListEvents_loaded r_def)
  have sr: "set r = set (rangeFilter from to (gatherEvents h c sources w))"
    by (simp add: r_def set_sortSlice)
  have lo: "\<not> IsZero from \<longrightarrow> (\<forall>e\<in>set r. \<not> Before (Start e) from)"
    by (simp add: sr set_rangeFilter)
  have hi: "\<not> IsZero to \<longrightarrow> (\<forall>e\<in>set r. \<not> After (Start e) to)"
    by (simp add: sr set_rangeFilter)
  have ch: "set r = {e \<in> set (gatherEvents h c sources w).
                    (IsZero from \<or> \<not> Before (Start e) from)
                    \<and> (IsZero to \<or> \<not> After (Start e) to)}"
    by (auto simp: sr set_rangeFilter)
  have all: "IsZero from \<and> IsZero to \<longrightarrow>
          mset r = mset (gatherEvents h c sources w)
          \<and> (\<forall>s\<in>set sources. \<forall>entries.
                ReadDir (CalendarDir c (Name s)) w = Inr entries \<longrightarrow>
                (\<forall>entry\<in>set entries. \<forall>e.
                    HasSuffix entry ''.ics''
                    \<and> readEvent h (CalendarDir c (Name s)) entry (Name s) w = Inr e
                    \<longrightarrow> e \<in> set r))"
  proof (intro impI conjI ballI allI)
    assume z: "IsZero from \<and> IsZero to"
    then have rf: "rangeFilter from to (gatherEvents h c sources w) = gatherEvents h c sources w"
      by (simp add: rangeFilter_unbounded)
    show "mset r = mset (gatherEvents h c sources w)"
      by (simp add: r_def mset_sortSlice rf)
    fix s entries entry e
    assume "s \<in> set sources" "ReadDir (CalendarDir c (Name s)) w = Inr entries"
      "entry \<in> set entries"
      "HasSuffix entry ''.ics'' \<and> readEvent h (CalendarDir c (Name s)) entry (Name s) w = Inr e"
    then have "e \<in> set (gatherEvents h c sources w)"
      using stored_event_gathered by blast
    then show "e \<in> set r"
      by (simp add: sr rf)
  qed
  show ?thesis
    using le lo hi ch all by blast
qed

theorem C1_ListEvents_range_filter_witness:
  "LoadSources exampleConfig exampleWorld = Inr [workSource, homeSource]
   \<and> \<not> IsZero (DateUTC 2024 3 15 6 0 0 0) \<and> \<not> IsZero (DateUTC 2024 3 16 0 0 0 0)
   \<and> (\<exists>r. ListEvents exampleHost exampleConfig (DateUTC 2024 3 15 6 0 0 0)
              (DateUTC 2024 3 16 0 0 0 0) exampleWorld = Inr r
          \<and> map UID r = [''e2'']
          \<and> (\<forall>e\<in>set r. \<not> Before (Start e) (DateUTC 2024 3 15 6 0 0 0))
          \<and> (\<forall>e\<in>set r. \<not> After (Start e) (DateUTC 2024 3 16 0 0 0 0)))
   \<and> IsZero zeroTime
   \<and> (\<exists>r. ListEvents exampleHost exampleConfig zeroTime zeroTime exampleWorld = Inr r
          \<and> mset (map UID r) = {#''e1'', ''e2''#})"
proof -
  note load = conjunct1 [OF example_listing]
  note uids = conjunct1 [OF conjunct2 [OF example_listing]]
  note starts = conjunct2 [OF conjunct2 [OF example_listing]]
  define lo where "lo = DateUTC 2024 3 15 6 0 0 0"
  define hi where "hi = DateUTC 2024 3 16 0 0 0 0"
  have fv: "lo = \<lparr>t_sec = 63846079200, t_nsec = 0, t_loc = UTC\<rparr>"
    by (simp add: lo_def DateUTC_def daysSinceYear1_def isLeap_def daysBefore_def)
  have tv: "hi = \<lparr>t_sec = 63846144000, t_nsec = 0, t_loc = UTC\<rparr>"
    by (simp add: hi_def DateUTC_def daysSinceYear1_def isLeap_def daysBefore_def)
  have nz: "\<not> IsZero lo" "\<not> IsZero hi" "IsZero zeroTime"
    by (simp_all add: fv tv IsZero_def zeroTime_def)
  define G where
    "G = gatherEvents exampleHost exampleConfig [workSource, homeSource] exampleWorld"
  obtain g1 g2 where g: "G = [g1, g2]" "UID g1 = ''e1''" "UID g2 = ''e2''"
      "Start g1 = \<lparr>t_sec = 63846057600, t_nsec = 0, t_loc = UTC\<rparr>"
      "Start g2 = \<lparr>t_sec = 63846104400, t_nsec = 0, t_loc = Zone ''America/New_York''\<rparr>"
    using uids starts unfolding G_def [symmetric] by (auto simp: map_eq_Cons_conv)
  have bounded: "ListEvents exampleHost exampleConfig lo hi exampleWorld = Inr [g2]"
    unfolding ListEvents_loaded [OF load, of exampleHost lo hi, folded G_def]
    by (simp add: g fv tv IsZero_def Before_def After_def sortSlice_def)
  obtain r where r: "ListEvents exampleHost exampleConfig lo hi exampleWorld = Inr r"
      "\<forall>e\<in>set r. \<not> Before (Start e) lo" "\<forall>e\<in>set r. \<not> After (Start e) hi"
    using C1_ListEvents_range_filter [OF load, of exampleHost lo hi] nz by blast
  obtain r0 where r0: "ListEvents exampleHost exampleConfig zeroTime zeroTime exampleWorld = Inr r0"
      "mset r0 = mset G"
    using C1_ListEvents_range_filter [OF load, of exampleHost zeroTime zeroTime] nz
    unfolding G_def by blast
  have u0: "mset (map UID r0) = {#''e1'', ''e2''#}"
  proof -
    have "mset (map UID r0) = image_mset UID (mset G)"
      using r0(2) by (metis mset_map)
    then show ?thesis
      by (simp add: g)
  qed
  have a: "\<exists>r. ListEvents exampleHost exampleConfig lo hi exampleWorld = Inr r
          \<and> map UID r = [''e2'']
          \<and> (\<forall>e\<in>set r. \<not> Before (Start e) lo)
          \<and> (\<forall>e\<in>set r. \<not> After (Start e) hi)"
    using r bounded g by auto
  have b: "\<exists>r. ListEvents exampleHost exampleConfig zeroTime zeroTime exampleWorld = Inr r
          \<and> mset (map UID r) = {#''e1'', ''e2''#}"
    using r0(1) u0 by blast
  show ?thesis
    using load nz a b unfolding lo_def hi_def by blast
qed

subsection \<open>The order of the result\<close>

text \<open>
  C8: whenever the registry loads, \<^verbatim>\<open>ListEvents\<close> returns a list r that is
  non-decreasing by start: for all positions i < j of r, the start of r[i] is
  before or equal to the start of r[j].
\<close>

theorem C8_ListEvents_sorted_by_start:
  assumes load: "LoadSources c w = Inr sources"
  shows "\<exists>r. ListEvents h c from to w = Inr r
     \<and> (\<forall>i j. i < j \<and> j < length r \<longrightarrow>
           Before (Start (r ! i)) (Start (r ! j)) \<or> Equal (Start (r ! i)) (Start (r ! j)))"
proof -
  define r where
    "r = sortSlice (\<lambda>a b. Before (Start a) (Start b))
           (rangeFilter from to (gatherEvents h c sources w))"
  have le: "ListEvents h c from to w = Inr r"
    using load by (simp add: ListEvents_loaded r_def)
  have "sorted_wrt (\<lambda>a b. \<not> Before (Start b) (Start a)) r"
    unfolding r_def by (rule sorted_sortSlice_Start)
  then have "\<forall>i j. i < j \<and> j < length r \<longrightarrow> \<not> Before (Start (r ! j)) (Start (r ! i))"
    by (simp add: sorted_wrt_iff_nth_less)
  then have "\<forall>i j. i < j \<and> j < length r \<longrightarrow>
           Before (Start (r ! i)) (Start (r ! j)) \<or> Equal (Start (r ! i)) (Start (r ! j))"
    by (simp add: not_Before_iff)
  with le show ?thesis by blast
qed

theorem C8_ListEvents_sorted_witness:
  "LoadSources exampleConfig exampleWorld = Inr [workSource, homeSource]
   \<and> map UID (gatherEvents exampleHost exampleConfig [workSource, homeSource] exampleWorld)
       = [''e1'', ''e2'']
   \<and> (\<exists>r. ListEvents exampleHost exampleConfig zeroTime zeroTime exampleWorld = Inr r
          \<and> length r = 2
          \<and> (Before (Start (r ! 0)) (Start (r ! 1)) \<or> Equal (Start (r ! 0)) (Start (r ! 1))))"
proof -
  note load = conjunct1 [OF example_listing]
  note uids = conjunct1 [OF conjunct2 [OF example_listing]]
  obtain r where r: "ListEvents exampleHost exampleConfig zeroTime zeroTime exampleWorld = Inr r"
      "\<forall>i j. i < j \<and> j < length r \<longrightarrow>
           Before (Start (r ! i)) (Start (r ! j)) \<or> Equal (Start (r ! i)) (Start (r ! j))"
    using C8_ListEvents_sorted_by_start [OF load, of exampleHost zeroTime zeroTime] by blast
  define G where
    "G = gatherEvents exampleHost exampleConfig [workSource, homeSource] exampleWorld"
  have z: "IsZero zeroTime"
    by (simp add: IsZero_def zeroTime_def)
  have le: "ListEvents exampleHost exampleConfig zeroTime zeroTime exampleWorld
      = Inr (sortSlice (\<lambda>a b. Before (Start a) (Start b)) (rangeFilter zeroTime zeroTime G))"
    by (rule ListEvents_loaded [OF load, of exampleHost zeroTime zeroTime, folded G_def])
  have "r = sortSlice (\<lambda>a b. Before (Start a) (Start b)) (rangeFilter zeroTime zeroTime G)"
    using r(1) le by simp
  then have "mset r = mset G"
    by (simp add: mset_sortSlice rangeFilter_unbounded z)
  then have "length r = length G"
    by (metis size_mset)
  then have "length r = length (gatherEvents exampleHost exampleConfig [workSource, homeSource] exampleWorld)"
    by (simp only: G_def)
  also have "\<dots> = 2"
    using uids by (metis length_map length_Cons list.size(3) One_nat_def Suc_1)
  finally have len: "length r = 2" .
  have "Before (Start (r ! 0)) (Start (r ! 1)) \<or> Equal (Start (r ! 0)) (Start (r ! 1))"
    using r(2) len by simp
  then show ?thesis
    using load uids r(1) len by blast
qed

end
